theory Spec2Isabelle
  imports Main "HOL-Library.Sublist" "HOL-Library.AList"
begin

section \<open>Python values and the operations the scripts apply to them\<close>

text \<open>
  The scripts work on what \<^verbatim>\<open>json.load\<close>, \<^verbatim>\<open>response.json()\<close> and dict literals
  produce: \<^verbatim>\<open>None\<close>, booleans, integers, strings, lists and dicts with string keys.
  A dict is an association list in insertion order, read with \<open>map_of\<close> and written
  with \<open>AList.update\<close> (a Python dict holds each key once). Strings are ASCII text.
  Numbers are integers: the scripts read a number only for its truth value, where a
  float behaves as an integer does (zero is false).
\<close>

datatype json =
    JNull
  | JBool bool
  | JNum int
  | JStr string
  | JArr "json list"
  | JObj "(string \<times> json) list"

text \<open>The exceptions that the modelled statements can raise.\<close>

datatype exn =
    KeyError string
  | TypeError
  | AttributeError
  | IndexError
  | FileNotFoundError
  | RequestException
  | JSONDecodeError

text \<open>\<^verbatim>\<open>bool(v)\<close>: the truth value Python gives a value in \<^verbatim>\<open>if v\<close> and \<^verbatim>\<open>not v\<close>.\<close>

fun truthy :: "json \<Rightarrow> bool" where
  "truthy JNull = False"
| "truthy (JBool b) = b"
| "truthy (JNum n) = (n \<noteq> 0)"
| "truthy (JStr s) = (s \<noteq> [])"
| "truthy (JArr xs) = (xs \<noteq> [])"
| "truthy (JObj kvs) = (kvs \<noteq> [])"

text \<open>\<^verbatim>\<open>v[k]\<close> with a string key: KeyError on a dict without the key, TypeError on
  anything that is not a dict.\<close>

fun getitem :: "json \<Rightarrow> string \<Rightarrow> exn + json" where
  "getitem (JObj kvs) k = (case map_of kvs k of None \<Rightarrow> Inl (KeyError k) | Some v \<Rightarrow> Inr v)"
| "getitem _ k = Inl TypeError"

text \<open>\<^verbatim>\<open>v.get(k, d)\<close>: only a dict has the method.\<close>

fun py_get :: "json \<Rightarrow> string \<Rightarrow> json \<Rightarrow> exn + json" where
  "py_get (JObj kvs) k d = (case map_of kvs k of None \<Rightarrow> Inr d | Some v \<Rightarrow> Inr v)"
| "py_get _ k d = Inl AttributeError"

text \<open>\<^verbatim>\<open>s in v\<close> for a string \<open>s\<close>: substring test on a string, element test on a
  list, key test on a dict, TypeError otherwise.\<close>

fun py_in :: "string \<Rightarrow> json \<Rightarrow> exn + bool" where
  "py_in s (JStr t) = Inr (sublist s t)"
| "py_in s (JArr xs) = Inr (JStr s \<in> set xs)"
| "py_in s (JObj kvs) = Inr (s \<in> set (map fst kvs))"
| "py_in s _ = Inl TypeError"

text \<open>\<^verbatim>\<open>for x in v\<close>: the elements of a list, the one-character strings of a string,
  the keys of a dict; TypeError otherwise.\<close>

fun py_iter :: "json \<Rightarrow> exn + json list" where
  "py_iter (JArr xs) = Inr xs"
| "py_iter (JStr s) = Inr (map (\<lambda>c. JStr [c]) s)"
| "py_iter (JObj kvs) = Inr (map (\<lambda>kv. JStr (fst kv)) kvs)"
| "py_iter _ = Inl TypeError"

text \<open>\<^verbatim>\<open>str.lower()\<close> on ASCII text; only a string has the method.\<close>

definition lower_char :: "char \<Rightarrow> char" where
  "lower_char c =
     (let n = (of_char c :: nat) in if 65 \<le> n \<and> n \<le> 90 then char_of (n + 32) else c)"

fun py_lower :: "json \<Rightarrow> exn + string" where
  "py_lower (JStr s) = Inr (map lower_char s)"
| "py_lower _ = Inl AttributeError"

text \<open>\<^verbatim>\<open>s.split(sep)\<close> for a non-empty separator: the pieces between the occurrences
  of \<open>sep\<close> found scanning from the left, an occurrence starting only after the
  previous one has ended. \<open>cur\<close> holds the piece being read, reversed. (Python raises
  ValueError on the empty separator; the scripts only split at \<^verbatim>\<open>'/page/'\<close>.)\<close>

function split_from :: "string \<Rightarrow> string \<Rightarrow> string \<Rightarrow> string list" where
  "split_from sep cur [] = [rev cur]"
| "split_from sep cur (c # cs) =
     (if sep \<noteq> [] \<and> prefix sep (c # cs)
      then rev cur # split_from sep [] (drop (length sep) (c # cs))
      else split_from sep (c # cur) cs)"
  by pat_completeness auto
termination
  by (relation "measure (\<lambda>(sep, cur, s). length s)") (auto simp: neq_Nil_conv)

definition split :: "string \<Rightarrow> string \<Rightarrow> string list" where
  "split s sep = split_from sep [] s"

text \<open>\<^verbatim>\<open>v.split(sep)\<close> on a value: only a string has the method.\<close>

fun py_split :: "json \<Rightarrow> string \<Rightarrow> exn + string list" where
  "py_split (JStr s) sep = Inr (split s sep)"
| "py_split _ sep = Inl AttributeError"

section \<open>page\_visibility\_detector.py\<close>

subsection \<open>\<^verbatim>\<open>should_hide_page\<close>\<close>

definition test_keywords :: "string list" where
  "test_keywords = [''test'', ''beta'', ''old'', ''temp'', ''draft'', ''dev'', ''debug'']"

definition construction_keywords :: "string list" where
  "construction_keywords = [''construction'', ''wip'', ''todo'', ''pending'', ''coming soon'']"

definition admin_keywords :: "string list" where
  "admin_keywords = [''admin'', ''internal'', ''private'', ''restricted access'']"

definition hidden_page_ids :: "string list" where
  "hidden_page_ids = [''page_154'', ''page_181'', ''page_129'', ''page_130'']"

text \<open>The label is read and lower-cased before any rule is tried, so a label that is
  not a string raises whatever the other fields say.\<close>

definition page_label_of :: "json \<Rightarrow> exn + string" where
  "page_label_of page_data =
     (case py_get page_data ''label'' (JStr '''') of
        Inl e \<Rightarrow> Inl e
      | Inr l \<Rightarrow> py_lower l)"

definition should_hide_page :: "string \<Rightarrow> json \<Rightarrow> exn + bool" where
  "should_hide_page page_id page_data =
     (case page_label_of page_data of
        Inl e \<Rightarrow> Inl e
      | Inr page_label \<Rightarrow>
     (case py_get page_data ''visible'' (JBool True) of
        Inl e \<Rightarrow> Inl e
      | Inr vis \<Rightarrow>
          if \<not> truthy vis then Inr True
          else
     (case py_get page_data ''showInNav'' (JBool True) of
        Inl e \<Rightarrow> Inl e
      | Inr nav \<Rightarrow>
          if \<not> truthy nav then Inr True
          else if list_ex (\<lambda>keyword. sublist keyword page_label) test_keywords then Inr True
          else if list_ex (\<lambda>keyword. sublist keyword page_label) construction_keywords
            then Inr True
          else if list_ex (\<lambda>keyword. sublist keyword page_label) admin_keywords then Inr True
          else if page_id \<in> set hidden_page_ids then Inr True
          else Inr False)))"

subsection \<open>\<^verbatim>\<open>get_hide_reason\<close>\<close>

definition get_hide_reason :: "string \<Rightarrow> json \<Rightarrow> exn + string" where
  "get_hide_reason page_id page_data =
     (case page_label_of page_data of
        Inl e \<Rightarrow> Inl e
      | Inr page_label \<Rightarrow>
     (case py_get page_data ''visible'' (JBool True) of
        Inl e \<Rightarrow> Inl e
      | Inr vis \<Rightarrow>
          if \<not> truthy vis then Inr ''Not visible''
          else
     (case py_get page_data ''showInNav'' (JBool True) of
        Inl e \<Rightarrow> Inl e
      | Inr nav \<Rightarrow>
          if \<not> truthy nav then Inr ''Hidden from navigation''
          else if list_ex (\<lambda>kw. sublist kw page_label) [''test'', ''beta'', ''old'']
            then Inr ''Test/development page''
          else if page_id \<in> set [''page_154'', ''page_181'', ''page_129'', ''page_130'']
            then Inr ''Manual override''
          else Inr ''Unknown reason'')))"

subsection \<open>\<^verbatim>\<open>get_arcgis_token\<close>\<close>

text \<open>
  What the network answers is an input of the model. A request either raises
  (\<^verbatim>\<open>requests.RequestException\<close>), or returns a body that \<^verbatim>\<open>response.json()\<close> cannot
  decode, or returns decoded JSON. \<^verbatim>\<open>requests\<close> does not raise on an HTTP error
  status, and the scripts never look at the status of these two requests.
\<close>

datatype http_result = HttpRaises | HttpNotJson | HttpJson json

fun response_json :: "http_result \<Rightarrow> exn + json" where
  "response_json HttpRaises = Inl RequestException"
| "response_json HttpNotJson = Inl JSONDecodeError"
| "response_json (HttpJson j) = Inr j"

text \<open>
  \<open>global_config\<close> is the parsed \<^verbatim>\<open>~/.config/arcgis/.env\<close> (\<open>None\<close>: the file does not
  exist); \<open>token_endpoint\<close> answers the OAuth2 request for a client id and secret;
  \<open>data_endpoint\<close> answers the items-data request for an experience id and a token.
\<close>

record arcgis_env =
  global_config :: "(string \<times> string) list option"
  token_endpoint :: "json \<Rightarrow> json \<Rightarrow> http_result"
  data_endpoint :: "string \<Rightarrow> json \<Rightarrow> http_result"

definition load_global_config :: "arcgis_env \<Rightarrow> exn + (string \<times> string) list" where
  "load_global_config env =
     (case global_config env of None \<Rightarrow> Inl FileNotFoundError | Some config \<Rightarrow> Inr config)"

text \<open>\<^verbatim>\<open>config.get(k)\<close> and \<^verbatim>\<open>config.get(k, d)\<close> on the parsed configuration.\<close>

definition config_get :: "(string \<times> string) list \<Rightarrow> string \<Rightarrow> json \<Rightarrow> json" where
  "config_get config k d = (case map_of config k of None \<Rightarrow> d | Some v \<Rightarrow> JStr v)"

definition get_arcgis_credentials :: "arcgis_env \<Rightarrow> exn + json" where
  "get_arcgis_credentials env =
     (case load_global_config env of
        Inl e \<Rightarrow> Inl e
      | Inr config \<Rightarrow> Inr (JObj
          [(''client_id'', config_get config ''ARCGIS_CLIENT_ID'' JNull),
           (''client_secret'', config_get config ''ARCGIS_CLIENT_SECRET'' JNull),
           (''portal_url'',
              config_get config ''ARCGIS_PORTAL_URL'' (JStr ''https://experience.arcgis.com'')),
           (''base_experience_id'', config_get config ''ARCGIS_BASE_EXPERIENCE_ID'' JNull)]))"

definition get_arcgis_token :: "arcgis_env \<Rightarrow> exn + json" where
  "get_arcgis_token env =
     (case get_arcgis_credentials env of
        Inl e \<Rightarrow> Inl e
      | Inr creds \<Rightarrow>
     (case getitem creds ''client_id'' of
        Inl e \<Rightarrow> Inl e
      | Inr client_id \<Rightarrow>
     (case getitem creds ''client_secret'' of
        Inl e \<Rightarrow> Inl e
      | Inr client_secret \<Rightarrow>
     (case response_json (token_endpoint env client_id client_secret) of
        Inl e \<Rightarrow> Inl e
      | Inr result \<Rightarrow> py_get result ''access_token'' JNull))))"

subsection \<open>\<^verbatim>\<open>get_visible_pages\<close>\<close>

text \<open>What the scripts print, one constructor for each \<^verbatim>\<open>print\<close> group.\<close>

datatype printed =
    VisibilitySummary nat nat
  | HiddenPagesHeader
  | HiddenPageLine string json string
  | NoExperienceId
  | RemovedCount nat
  | RemovedLine json json string
  | AllVisible
  | ValidationFailed exn

text \<open>\<^verbatim>\<open>v.items()\<close>: only a dict has the method.\<close>

fun py_items :: "json \<Rightarrow> exn + (string \<times> json) list" where
  "py_items (JObj kvs) = Inr kvs"
| "py_items _ = Inl AttributeError"

text \<open>The loop of lines 99 to 103 over the items of the page collection, with the two
  dicts it fills.\<close>

fun partition_pages ::
  "(string \<times> json) list \<Rightarrow> (string \<times> json) list \<Rightarrow> (string \<times> json) list
    \<Rightarrow> exn + ((string \<times> json) list \<times> (string \<times> json) list)" where
  "partition_pages [] visible_pages hidden_pages = Inr (visible_pages, hidden_pages)"
| "partition_pages ((page_id, page_data) # rest) visible_pages hidden_pages =
     (case should_hide_page page_id page_data of
        Inl e \<Rightarrow> Inl e
      | Inr hide \<Rightarrow>
          if hide
          then partition_pages rest visible_pages (AList.update page_id page_data hidden_pages)
          else partition_pages rest (AList.update page_id page_data visible_pages) hidden_pages)"

text \<open>The loop of lines 113 to 115 that prints one line for each hidden page; it
  returns the lines printed and the exception that stopped it, if any.\<close>

fun hidden_lines :: "(string \<times> json) list \<Rightarrow> printed list \<times> exn option" where
  "hidden_lines [] = ([], None)"
| "hidden_lines ((page_id, page_data) # rest) =
     (case get_hide_reason page_id page_data of
        Inl e \<Rightarrow> ([], Some e)
      | Inr reason \<Rightarrow>
     (case py_get page_data ''label'' (JStr ''Unknown'') of
        Inl e \<Rightarrow> ([], Some e)
      | Inr l \<Rightarrow>
          (case hidden_lines rest of
             (out, r) \<Rightarrow> (HiddenPageLine page_id l reason # out, r))))"

definition get_visible_pages ::
  "arcgis_env \<Rightarrow> string \<Rightarrow> printed list \<times> (exn + (string \<times> json) list)" where
  "get_visible_pages env experience_id =
     (case get_arcgis_token env of
        Inl e \<Rightarrow> ([], Inl e)
      | Inr token \<Rightarrow>
     (case response_json (data_endpoint env experience_id token) of
        Inl e \<Rightarrow> ([], Inl e)
      | Inr exp_data \<Rightarrow>
     (case py_in ''pages'' exp_data of
        Inl e \<Rightarrow> ([], Inl e)
      | Inr has_pages \<Rightarrow>
          if \<not> has_pages then ([], Inr [])
          else
     (case getitem exp_data ''pages'' of
        Inl e \<Rightarrow> ([], Inl e)
      | Inr pages \<Rightarrow>
     (case py_items pages of
        Inl e \<Rightarrow> ([], Inl e)
      | Inr items \<Rightarrow>
     (case partition_pages items [] [] of
        Inl e \<Rightarrow> ([], Inl e)
      | Inr (visible_pages, hidden_pages) \<Rightarrow>
          if hidden_pages = []
          then ([VisibilitySummary (length visible_pages) (length hidden_pages)],
                Inr visible_pages)
          else
            (case hidden_lines hidden_pages of
               (out, r) \<Rightarrow>
                 (VisibilitySummary (length visible_pages) (length hidden_pages)
                    # HiddenPagesHeader # out,
                  case r of None \<Rightarrow> Inr visible_pages | Some e \<Rightarrow> Inl e))))))))"

section \<open>menu\_generator.py\<close>

subsection \<open>The menu tree\<close>

text \<open>
  A menu item is the dict that \<^verbatim>\<open>create_menu_item\<close> returns, with the keys
  \<^verbatim>\<open>label\<close>, \<^verbatim>\<open>href\<close> and \<^verbatim>\<open>term\<close>; a category is the dict that \<^verbatim>\<open>create_category\<close>
  returns, with the keys \<^verbatim>\<open>category\<close>, \<^verbatim>\<open>color\<close> and \<^verbatim>\<open>links\<close>. The records below
  are the typed menu tree; \<open>menu_item_dict\<close> and \<open>category_dict\<close> give the Python
  value of each, key for key as the two dict literals are written.
\<close>

record MenuLink =
  label :: string
  href :: string
  "term" :: string

record MenuCategory =
  category :: string
  color :: string
  links :: "MenuLink list"

definition menu_item_dict :: "MenuLink \<Rightarrow> json" where
  "menu_item_dict l =
     JObj [(''label'', JStr (label l)), (''href'', JStr (href l)), (''term'', JStr (term l))]"

definition category_dict :: "MenuCategory \<Rightarrow> json" where
  "category_dict c =
     JObj [(''category'', JStr (category c)), (''color'', JStr (color c)),
           (''links'', JArr (map menu_item_dict (links c)))]"

subsection \<open>\<^verbatim>\<open>validate_menu_visibility\<close>\<close>

text \<open>\<^verbatim>\<open>xs[-1]\<close>: IndexError on the empty list.\<close>

fun last_item :: "'a list \<Rightarrow> exn + 'a" where
  "last_item [] = Inl IndexError"
| "last_item (x # xs) = Inr (last (x # xs))"

text \<open>An entry of \<^verbatim>\<open>removed_items\<close>: the values stored under \<^verbatim>\<open>category\<close>, \<^verbatim>\<open>label\<close>
  and \<^verbatim>\<open>page_id\<close>.\<close>

type_synonym removed_item = "json \<times> json \<times> string"

text \<open>
  The inner loop (lines 188 to 203) over the links of one category.
  \<open>cleaned_links\<close> and \<open>removed_items\<close> are the two lists the loop appends to.
  An exception leaves the loop at once.
\<close>

fun clean_links ::
  "string set \<Rightarrow> json \<Rightarrow> json list \<Rightarrow> json list \<Rightarrow> removed_item list
    \<Rightarrow> exn + (json list \<times> removed_item list)" where
  "clean_links visible_page_ids cat [] cleaned_links removed_items =
     Inr (cleaned_links, removed_items)"
| "clean_links visible_page_ids cat (link # rest) cleaned_links removed_items =
     (case getitem link ''href'' of
        Inl e \<Rightarrow> Inl e
      | Inr h \<Rightarrow>
     (case py_in ''/page/'' h of
        Inl e \<Rightarrow> Inl e
      | Inr has_page \<Rightarrow>
          if has_page then
            (case py_split h ''/page/'' of
               Inl e \<Rightarrow> Inl e
             | Inr parts \<Rightarrow>
            (case last_item parts of
               Inl e \<Rightarrow> Inl e
             | Inr page_id \<Rightarrow>
                 if page_id \<in> visible_page_ids
                 then clean_links visible_page_ids cat rest (cleaned_links @ [link])
                        removed_items
                 else
                   (case getitem cat ''category'' of
                      Inl e \<Rightarrow> Inl e
                    | Inr c \<Rightarrow>
                   (case getitem link ''label'' of
                      Inl e \<Rightarrow> Inl e
                    | Inr l \<Rightarrow>
                        clean_links visible_page_ids cat rest cleaned_links
                          (removed_items @ [(c, l, page_id)])))))
          else clean_links visible_page_ids cat rest (cleaned_links @ [link]) removed_items))"

text \<open>\<^verbatim>\<open>category_copy = category.copy(); category_copy['links'] = cleaned_links\<close>.\<close>

fun copy_with_links :: "json \<Rightarrow> json list \<Rightarrow> exn + json" where
  "copy_with_links (JObj kvs) cleaned_links =
     Inr (JObj (AList.update ''links'' (JArr cleaned_links) kvs))"
| "copy_with_links (JArr xs) cleaned_links = Inl TypeError"
| "copy_with_links _ cleaned_links = Inl AttributeError"

text \<open>The outer loop (lines 185 to 209) over the categories.\<close>

fun clean_menu ::
  "string set \<Rightarrow> json list \<Rightarrow> json list \<Rightarrow> removed_item list
    \<Rightarrow> exn + (json list \<times> removed_item list)" where
  "clean_menu visible_page_ids [] cleaned_menu removed_items =
     Inr (cleaned_menu, removed_items)"
| "clean_menu visible_page_ids (cat # rest) cleaned_menu removed_items =
     (case getitem cat ''links'' of
        Inl e \<Rightarrow> Inl e
      | Inr ls \<Rightarrow>
     (case py_iter ls of
        Inl e \<Rightarrow> Inl e
      | Inr link_list \<Rightarrow>
     (case clean_links visible_page_ids cat link_list [] removed_items of
        Inl e \<Rightarrow> Inl e
      | Inr (cleaned_links, removed_items') \<Rightarrow>
          if cleaned_links \<noteq> [] then
            (case copy_with_links cat cleaned_links of
               Inl e \<Rightarrow> Inl e
             | Inr category_copy \<Rightarrow>
                 clean_menu visible_page_ids rest (cleaned_menu @ [category_copy])
                   removed_items')
          else clean_menu visible_page_ids rest cleaned_menu removed_items')))"

definition removed_line :: "removed_item \<Rightarrow> printed" where
  "removed_line item = (case item of (c, l, page_id) \<Rightarrow> RemovedLine c l page_id)"

text \<open>
  The method returns the menu and never raises: the \<^verbatim>\<open>except Exception\<close> clause
  catches whatever the \<^verbatim>\<open>try\<close> block raises, prints it and returns \<open>menu_data\<close> as
  it was passed in. \<open>experience_id\<close> is \<^verbatim>\<open>self.experience_id\<close> (\<open>None\<close> or a string).
\<close>

definition validate_menu_visibility ::
  "arcgis_env \<Rightarrow> string option \<Rightarrow> json list \<Rightarrow> printed list \<times> json list" where
  "validate_menu_visibility env experience_id menu_data =
     (case experience_id of
        None \<Rightarrow> ([NoExperienceId], menu_data)
      | Some eid \<Rightarrow>
          if eid = [] then ([NoExperienceId], menu_data)
          else
            (case get_visible_pages env eid of
               (out, Inl e) \<Rightarrow> (out @ [ValidationFailed e], menu_data)
             | (out, Inr visible_pages) \<Rightarrow>
                 (case clean_menu (set (map fst visible_pages)) menu_data [] [] of
                    Inl e \<Rightarrow> (out @ [ValidationFailed e], menu_data)
                  | Inr (cleaned_menu, removed_items) \<Rightarrow>
                      if removed_items \<noteq> []
                      then (out @ RemovedCount (length removed_items)
                              # map removed_line removed_items, cleaned_menu)
                      else (out @ [AllVisible], cleaned_menu))))"

section \<open>deploy.py\<close>

text \<open>
  What the deployment finds outside the process is an input of the model:
  \<open>menu_json\<close> is the file \<^verbatim>\<open>menu.json\<close> of the working directory (missing, not
  decodable, or decoded); \<open>run\<close> answers \<^verbatim>\<open>subprocess.run(cmd, ...)\<close> with the completed
  process, or \<open>None\<close> when the program cannot be started; \<open>post\<close> answers the request
  to the menu API for a URL, a password and a body; \<open>commit_stamp\<close> and
  \<open>backup_stamp\<close> are \<^verbatim>\<open>datetime.now()\<close> in the two formats used; \<open>deployment_config\<close>
  is the parsed configuration file read by the constructor. The \<^verbatim>\<open>print\<close> calls of
  this file are not modelled.
\<close>

datatype file_state = Missing | Unparsable | Parsed json

record completed =
  returncode :: int
  stdout :: string
  stderr :: string

record http_response =
  ok :: bool
  body :: "json option"

datatype post_result = PostRaises | PostResponse http_response

record deploy_env =
  menu_json :: file_state
  run :: "string list \<Rightarrow> completed option"
  post :: "string \<Rightarrow> json \<Rightarrow> json \<Rightarrow> post_result"
  commit_stamp :: string
  backup_stamp :: string
  deployment_config :: "(string \<times> string) list"

text \<open>\<^verbatim>\<open>str.strip()\<close> on ASCII text: the characters for which \<^verbatim>\<open>str.isspace\<close> holds
  are removed at both ends.\<close>

definition isspace :: "char \<Rightarrow> bool" where
  "isspace c = (let n = (of_char c :: nat) in (9 \<le> n \<and> n \<le> 13) \<or> (28 \<le> n \<and> n \<le> 32))"

definition strip :: "string \<Rightarrow> string" where
  "strip s = rev (dropWhile isspace (rev (dropWhile isspace s)))"

text \<open>The value an f-string gives a configuration entry: the string, or \<^verbatim>\<open>None\<close>.\<close>

fun format_value :: "json \<Rightarrow> string" where
  "format_value (JStr s) = s"
| "format_value _ = ''None''"

definition get_deployment_config :: "deploy_env \<Rightarrow> json" where
  "get_deployment_config env =
     JObj [(''pythonanywhere_username'',
              config_get (deployment_config env) ''PYTHONANYWHERE_USERNAME'' JNull),
           (''pythonanywhere_domain'',
              config_get (deployment_config env) ''PYTHONANYWHERE_DOMAIN'' JNull),
           (''menu_api_password'', config_get (deployment_config env) ''MENU_API_PASSWORD'' JNull),
           (''menu_api_base_url'', config_get (deployment_config env) ''MENU_API_BASE_URL'' JNull)]"

text \<open>\<^verbatim>\<open>run_command\<close>: with \<^verbatim>\<open>check=True\<close> a non-zero return code raises
  \<^verbatim>\<open>CalledProcessError\<close>, which the method catches; a program that cannot be started
  raises past it.\<close>

definition run_command :: "deploy_env \<Rightarrow> string list \<Rightarrow> exn + (bool \<times> string)" where
  "run_command env cmd =
     (case run env cmd of
        None \<Rightarrow> Inl FileNotFoundError
      | Some result \<Rightarrow>
          if returncode result = 0 then Inr (True, stdout result)
          else Inr (False, stderr result))"

text \<open>\<^verbatim>\<open>check_git_status\<close>: without \<^verbatim>\<open>check=True\<close> the return code is not looked at.\<close>

definition check_git_status :: "deploy_env \<Rightarrow> exn + string" where
  "check_git_status env =
     (case run env [''git'', ''status'', ''--porcelain''] of
        None \<Rightarrow> Inl FileNotFoundError
      | Some result \<Rightarrow> Inr (strip (stdout result)))"

definition deploy_to_github :: "deploy_env \<Rightarrow> string option \<Rightarrow> exn + bool" where
  "deploy_to_github env commit_message =
     (case check_git_status env of
        Inl e \<Rightarrow> Inl e
      | Inr changes \<Rightarrow>
          if changes = [] then Inr True
          else
     (case run_command env [''git'', ''add'', ''.''] of
        Inl e \<Rightarrow> Inl e
      | Inr (success, _) \<Rightarrow>
          if \<not> success then Inr False
          else
            let message =
              (case commit_message of
                 None \<Rightarrow> ''Update ArcGIS Experience Builder menu - '' @ commit_stamp env
               | Some m \<Rightarrow>
                   if m = [] then ''Update ArcGIS Experience Builder menu - '' @ commit_stamp env
                   else m)
            in
     (case run_command env [''git'', ''commit'', ''-m'', message] of
        Inl e \<Rightarrow> Inl e
      | Inr (success, _) \<Rightarrow>
          if \<not> success then Inr False
          else
     (case run_command env [''git'', ''push''] of
        Inl e \<Rightarrow> Inl e
      | Inr (success, _) \<Rightarrow> Inr success))))"

text \<open>\<^verbatim>\<open>deploy_to_pythonanywhere\<close>: every exception of the \<^verbatim>\<open>try\<close> block is caught and
  gives \<open>False\<close>, also the one \<^verbatim>\<open>response.json()\<close> raises on a successful response
  whose body is not JSON, the TypeError of \<^verbatim>\<open>'message' in result\<close> and the TypeError of
  \<^verbatim>\<open>result['message']\<close>, which is read for printing when \<^verbatim>\<open>'message' in result\<close> holds
  (on a string or a list that contains \<^verbatim>\<open>message\<close> the subscript raises).\<close>

definition deploy_to_pythonanywhere :: "deploy_env \<Rightarrow> bool" where
  "deploy_to_pythonanywhere env =
     (case menu_json env of
        Missing \<Rightarrow> False
      | Unparsable \<Rightarrow> False
      | Parsed menu_data \<Rightarrow>
     (case getitem (get_deployment_config env) ''menu_api_base_url'' of
        Inl e \<Rightarrow> False
      | Inr base_url \<Rightarrow>
     (case getitem (get_deployment_config env) ''menu_api_password'' of
        Inl e \<Rightarrow> False
      | Inr pw \<Rightarrow>
     (case post env (format_value base_url @ ''/menu'') pw menu_data of
        PostRaises \<Rightarrow> False
      | PostResponse response \<Rightarrow>
          if ok response then
            (case body response of
               None \<Rightarrow> False
             | Some result \<Rightarrow>
                 (case py_in ''message'' result of
                    Inl e \<Rightarrow> False
                  | Inr has_message \<Rightarrow>
                      if has_message then
                        (case getitem result ''message'' of
                           Inl e \<Rightarrow> False
                         | Inr message \<Rightarrow> True)
                      else True))
          else False))))"

text \<open>\<^verbatim>\<open>backup_current_menu\<close>: the name of the copy, or \<open>None\<close>; every exception is
  caught.\<close>

definition backup_current_menu :: "deploy_env \<Rightarrow> string option" where
  "backup_current_menu env =
     (let backup_name = ''menu_backup_'' @ backup_stamp env @ ''.json'' in
      if menu_json env \<noteq> Missing then
        (case run env [''cp'', ''menu.json'', backup_name] of
           None \<Rightarrow> None
         | Some result \<Rightarrow> if returncode result = 0 then Some backup_name else None)
      else None)"

text \<open>\<^verbatim>\<open>validate_menu\<close>: each \<^verbatim>\<open>return False\<close> of the nested loops is a conjunct that
  fails, in the order of the checks.\<close>

fun valid_link :: "json \<Rightarrow> bool" where
  "valid_link (JObj kvs) =
     list_all (\<lambda>field. field \<in> set (map fst kvs)) [''label'', ''href'', ''term'']"
| "valid_link _ = False"

fun valid_category :: "json \<Rightarrow> bool" where
  "valid_category (JObj kvs) =
     (list_all (\<lambda>field. field \<in> set (map fst kvs)) [''category'', ''color'', ''links'']
      \<and> (case map_of kvs ''links'' of
            Some (JArr ls) \<Rightarrow> list_all valid_link ls
          | _ \<Rightarrow> False))"
| "valid_category _ = False"

definition validate_menu :: "deploy_env \<Rightarrow> bool" where
  "validate_menu env =
     (case menu_json env of
        Missing \<Rightarrow> False
      | Unparsable \<Rightarrow> False
      | Parsed (JArr cats) \<Rightarrow> list_all valid_category cats
      | Parsed _ \<Rightarrow> False)"

definition full_deployment :: "deploy_env \<Rightarrow> string option \<Rightarrow> exn + bool" where
  "full_deployment env commit_message =
     (let backup = backup_current_menu env in
      if \<not> validate_menu env then Inr False
      else
        (case deploy_to_github env commit_message of
           Inl e \<Rightarrow> Inl e
         | Inr github_success \<Rightarrow>
             let pythonanywhere_success = deploy_to_pythonanywhere env in
             if github_success \<and> pythonanywhere_success then
               (case getitem (get_deployment_config env) ''pythonanywhere_domain'' of
                  Inl e \<Rightarrow> Inl e
                | Inr domain \<Rightarrow> Inr True)
             else Inr False))"

section \<open>Page records\<close>

text \<open>
  A page record of the content platform: a dict whose \<^verbatim>\<open>label\<close>, when there is one, is
  a string. On any other value \<^verbatim>\<open>should_hide_page\<close> raises before it tries a rule.
\<close>

fun page_record :: "json \<Rightarrow> bool" where
  "page_record (JObj kvs) =
     (case map_of kvs ''label'' of None \<Rightarrow> True | Some (JStr l) \<Rightarrow> True | Some _ \<Rightarrow> False)"
| "page_record _ = False"

section \<open>The reconciliation the specification describes\<close>

text \<open>
  The key the method reads off an href, \<^verbatim>\<open>href.split('/page/')[-1]\<close>: the last piece
  of the split.
\<close>

definition page_key :: "string \<Rightarrow> string" where
  "page_key h = last (split h ''/page/'')"

text \<open>
  The keep rule in the specification's words: a link whose href contains the
  \<^verbatim>\<open>/page/\<close> segment is kept iff its page key is in the visible set; a link whose
  href contains no such segment is kept.
\<close>

definition keep_rule :: "string set \<Rightarrow> MenuLink \<Rightarrow> bool" where
  "keep_rule visible l =
     (if sublist ''/page/'' (href l) then page_key (href l) \<in> visible else True)"

text \<open>
  Reconciliation in the specification's words: filter the links of every category by
  the keep rule, then drop the categories left without a link; \<open>filter\<close> and \<open>map\<close>
  keep the relative order.
\<close>

definition reconcile_spec :: "string set \<Rightarrow> MenuCategory list \<Rightarrow> MenuCategory list" where
  "reconcile_spec visible tree =
     filter (\<lambda>c. links c \<noteq> [])
       (map (\<lambda>c. c\<lparr>links := filter (keep_rule visible) (links c)\<rparr>) tree)"

text \<open>The removed-items report: one entry for each link the keep rule rejects, category
  by category.\<close>

definition removed_of :: "string set \<Rightarrow> MenuCategory \<Rightarrow> removed_item list" where
  "removed_of visible c =
     map (\<lambda>l. (JStr (category c), JStr (label l), page_key (href l)))
       (filter (\<lambda>l. \<not> keep_rule visible l) (links c))"

definition removed_spec :: "string set \<Rightarrow> MenuCategory list \<Rightarrow> removed_item list" where
  "removed_spec visible tree = concat (map (removed_of visible) tree)"

text \<open>
  The keep rule with the key read as the words "the text after the last \<^verbatim>\<open>/page/\<close>"
  say: \<open>after_last sep s\<close> is what follows the last place of \<open>s\<close> at which \<open>sep\<close>
  starts, \<open>None\<close> when \<open>sep\<close> starts nowhere.
\<close>

fun after_last :: "string \<Rightarrow> string \<Rightarrow> string option" where
  "after_last sep [] = None"
| "after_last sep (c # cs) =
     (case after_last sep cs of
        Some k \<Rightarrow> Some k
      | None \<Rightarrow> if prefix sep (c # cs) then Some (drop (length sep) (c # cs)) else None)"

definition keep_rule_after_last :: "string set \<Rightarrow> MenuLink \<Rightarrow> bool" where
  "keep_rule_after_last visible l =
     (case after_last ''/page/'' (href l) of None \<Rightarrow> True | Some k \<Rightarrow> k \<in> visible)"

text \<open>A category of the output that has a non-empty \<^verbatim>\<open>links\<close> list.\<close>

definition has_links :: "json \<Rightarrow> bool" where
  "has_links c = (case getitem c ''links'' of Inr (JArr ls) \<Rightarrow> ls \<noteq> [] | _ \<Rightarrow> False)"

section \<open>Example inputs\<close>

text \<open>A page collection with two visible pages and one hidden by rule 3, and the
  environment that serves it.\<close>

definition example_pages :: json where
  "example_pages = JObj
     [(''page_84'', JObj [(''label'', JStr ''National'')]),
      (''page_95'', JObj [(''label'', JStr ''Heat Risk'')]),
      (''page_96'', JObj [(''label'', JStr ''Old Map'')])]"

definition example_env :: arcgis_env where
  "example_env =
     \<lparr>global_config = Some [(''ARCGIS_CLIENT_ID'', ''id''), (''ARCGIS_CLIENT_SECRET'', ''secret'')],
      token_endpoint = (\<lambda>client_id client_secret. HttpJson (JObj [(''access_token'', JStr ''tok'')])),
      data_endpoint = (\<lambda>experience_id token. HttpJson (JObj [(''pages'', example_pages)]))\<rparr>"

text \<open>The token endpoint rejects the exchange with an error body.\<close>

definition env_token_rejected :: arcgis_env where
  "env_token_rejected =
     example_env\<lparr>token_endpoint :=
       (\<lambda>client_id client_secret. HttpJson
          (JObj [(''error'', JObj [(''code'', JNum 400), (''message'', JStr ''Invalid client_id'')])]))\<rparr>"

text \<open>The request for the page collection raises.\<close>

definition env_fetch_fails :: arcgis_env where
  "env_fetch_fails = example_env\<lparr>data_endpoint := (\<lambda>experience_id token. HttpRaises)\<rparr>"

text \<open>The response has no page collection.\<close>

definition env_no_pages :: arcgis_env where
  "env_no_pages =
     example_env\<lparr>data_endpoint :=
       (\<lambda>experience_id token. HttpJson (JObj [(''error'', JStr ''Item does not exist'')]))\<rparr>"

text \<open>The response is a JSON list, which has no page collection either.\<close>

definition env_list_body :: arcgis_env where
  "env_list_body =
     example_env\<lparr>data_endpoint := (\<lambda>experience_id token. HttpJson (JArr [JStr ''error'']))\<rparr>"

definition link_84 :: MenuLink where
  "link_84 = \<lparr>label = ''National'',
     href = ''https://experience.arcgis.com/experience/exp/page/page_84'', term = ''National''\<rparr>"

definition link_95 :: MenuLink where
  "link_95 = \<lparr>label = ''Heat Risk'',
     href = ''https://experience.arcgis.com/experience/exp/page/page_95'', term = ''Heat Risk''\<rparr>"

definition link_96 :: MenuLink where
  "link_96 = \<lparr>label = ''Old Map'',
     href = ''https://experience.arcgis.com/experience/exp/page/page_96'', term = ''Old Map''\<rparr>"

definition link_external :: MenuLink where
  "link_external =
     \<lparr>label = ''Red Cross'', href = ''https://www.redcross.org'', term = ''Red Cross''\<rparr>"

definition example_tree :: "MenuCategory list" where
  "example_tree =
     [\<lparr>category = ''1 Situation Summary'', color = ''btn-purple'',
         links = [link_84, link_96, link_95, link_external]\<rparr>,
      \<lparr>category = ''8 Regional Risk Tool'', color = ''btn-black'', links = [link_96]\<rparr>]"

definition clean_tree :: "MenuCategory list" where
  "clean_tree =
     [\<lparr>category = ''1 Situation Summary'', color = ''btn-purple'',
         links = [link_84, link_95, link_external]\<rparr>]"

definition empty_category_tree :: "MenuCategory list" where
  "empty_category_tree =
     [\<lparr>category = ''1 Situation Summary'', color = ''btn-purple'', links = [link_84]\<rparr>,
      \<lparr>category = ''9 Community Adaptation CAP'', color = ''btn-black'', links = []\<rparr>]"

text \<open>A link in whose href two \<^verbatim>\<open>/page/\<close> markers share a slash.\<close>

definition link_overlap :: MenuLink where
  "link_overlap = \<lparr>label = ''Nested'', href = ''a/page/page/x'', term = ''Nested''\<rparr>"

definition overlap_tree :: "MenuCategory list" where
  "overlap_tree = [\<lparr>category = ''2 Weather'', color = ''btn-blue'', links = [link_overlap]\<rparr>]"


text \<open>A deployment in which \<^verbatim>\<open>git push\<close> is rejected and the menu API accepts the
  menu, one in which the menu API answers with an error status as well, and one in
  which both succeed.\<close>

definition git_rejects_push :: "string list \<Rightarrow> completed option" where
  "git_rejects_push cmd =
     (if cmd = [''git'', ''status'', ''--porcelain'']
      then Some \<lparr>returncode = 0, stdout = '' M menu.json'', stderr = []\<rparr>
      else if cmd = [''git'', ''push'']
      then Some \<lparr>returncode = 1, stdout = [], stderr = ''! [rejected] main -> main''\<rparr>
      else Some \<lparr>returncode = 0, stdout = ''ok'', stderr = []\<rparr>)"

definition git_succeeds :: "string list \<Rightarrow> completed option" where
  "git_succeeds cmd =
     (if cmd = [''git'', ''status'', ''--porcelain'']
      then Some \<lparr>returncode = 0, stdout = '' M menu.json'', stderr = []\<rparr>
      else Some \<lparr>returncode = 0, stdout = ''ok'', stderr = []\<rparr>)"

definition env_vcs_fails :: deploy_env where
  "env_vcs_fails =
     \<lparr>menu_json = Parsed (JArr (map category_dict clean_tree)),
      run = git_rejects_push,
      post = (\<lambda>url pw menu.
                PostResponse \<lparr>ok = True, body = Some (JObj [(''message'', JStr ''saved'')])\<rparr>),
      commit_stamp = ''2025-06-01 12:00'',
      backup_stamp = ''20250601_120000'',
      deployment_config = [(''MENU_API_BASE_URL'', ''https://example.pythonanywhere.com''),
                           (''MENU_API_PASSWORD'', ''pw'')]\<rparr>"

definition env_both_fail :: deploy_env where
  "env_both_fail =
     env_vcs_fails\<lparr>post := (\<lambda>url pw menu. PostResponse \<lparr>ok = False, body = None\<rparr>)\<rparr>"

definition env_both_succeed :: deploy_env where
  "env_both_succeed = env_vcs_fails\<lparr>run := git_succeeds\<rparr>"

text \<open>The menu API answers a successful request with the JSON string \<^verbatim>\<open>"message"\<close>.\<close>

definition env_string_body :: deploy_env where
  "env_string_body =
     env_both_succeed\<lparr>post :=
       (\<lambda>url pw menu. PostResponse \<lparr>ok = True, body = Some (JStr ''message'')\<rparr>)\<rparr>"

section \<open>Properties of the page classifier\<close>

lemma should_hide_page_total:
  "page_record page_data \<Longrightarrow> \<exists>b. should_hide_page page_id page_data = Inr b"
  by (cases page_data)
     (auto simp: should_hide_page_def page_label_of_def split: option.splits json.splits)

lemma update_fresh: "k \<notin> fst ` set al \<Longrightarrow> AList.update k v al = al @ [(k, v)]"
  by (induction al) auto

lemma partition_pages_acc:
  "\<lbrakk>list_all (\<lambda>kv. page_record (snd kv)) items; distinct (map fst items);
    fst ` set items \<inter> (fst ` set vis \<union> fst ` set hid) = {}\<rbrakk>
   \<Longrightarrow> partition_pages items vis hid =
         Inr (vis @ filter (\<lambda>kv. should_hide_page (fst kv) (snd kv) = Inr False) items,
              hid @ filter (\<lambda>kv. should_hide_page (fst kv) (snd kv) = Inr True) items)"
proof (induction items arbitrary: vis hid)
  case Nil
  then show ?case by simp
next
  case (Cons kv items)
  obtain k pd where kv: "kv = (k, pd)" by (cases kv)
  from Cons.prems kv obtain b where b: "should_hide_page k pd = Inr b"
    using should_hide_page_total[of pd k] by auto
  have fresh: "k \<notin> fst ` set vis" "k \<notin> fst ` set hid" "k \<notin> fst ` set items"
    using Cons.prems kv by auto
  have rest: "list_all (\<lambda>kv. page_record (snd kv)) items" "distinct (map fst items)"
    using Cons.prems by auto
  show ?case
  proof (cases b)
    case True
    have disj: "fst ` set items \<inter> (fst ` set vis \<union> fst ` set (hid @ [(k, pd)])) = {}"
      using Cons.prems kv by auto
    show ?thesis
      using Cons.IH[OF rest disj] b True kv fresh by (simp add: update_fresh)
  next
    case False
    have disj: "fst ` set items \<inter> (fst ` set (vis @ [(k, pd)]) \<union> fst ` set hid) = {}"
      using Cons.prems kv by auto
    show ?thesis
      using Cons.IH[OF rest disj] b False kv fresh by (simp add: update_fresh)
  qed
qed

text \<open>
  C4: the rules are tried in order and the first match decides. A page record with
  \<^verbatim>\<open>visible\<close> set to false whose label contains the keyword \<^verbatim>\<open>test\<close> is classified
  hidden, and the reason reported for it is the one of rule 1 (the literal of the
  source is \<^verbatim>\<open>Not visible\<close>), not \<^verbatim>\<open>Test/development page\<close>.
\<close>

theorem rule_precedence:
  assumes "map_of kvs ''visible'' = Some (JBool False)"
    and "map_of kvs ''label'' = Some (JStr l)"
    and "sublist ''test'' (map lower_char l)"
  shows "should_hide_page page_id (JObj kvs) = Inr True
       \<and> get_hide_reason page_id (JObj kvs) = Inr ''Not visible''
       \<and> get_hide_reason page_id (JObj kvs) \<noteq> Inr ''Test/development page''"
  using assms by (simp add: should_hide_page_def get_hide_reason_def page_label_of_def)

theorem rule_precedence_witness:
  "map_of [(''label'', JStr ''Test Page''), (''visible'', JBool False)] ''visible'' = Some (JBool False)
   \<and> sublist ''test'' (map lower_char ''Test Page'')
   \<and> should_hide_page ''page_3'' (JObj [(''label'', JStr ''Test Page''), (''visible'', JBool False)]) = Inr True
   \<and> get_hide_reason ''page_3'' (JObj [(''label'', JStr ''Test Page''), (''visible'', JBool False)]) = Inr ''Not visible''"
proof -
  have a: "map_of [(''label'', JStr ''Test Page''), (''visible'', JBool False)] ''visible'' = Some (JBool False)" by simp
  have b: "map_of [(''label'', JStr ''Test Page''), (''visible'', JBool False)] ''label'' = Some (JStr ''Test Page'')" by simp
  have c: "sublist ''test'' (map lower_char ''Test Page'')" by code_simp
  show ?thesis using rule_precedence[OF a b c, of "''page_3''"] a c by simp
qed

text \<open>
  C5: the classifier's partition is total and disjoint. For every page collection (a
  dict, so its keys are distinct, of page records) the loop ends without an exception,
  the sizes of the visible and the hidden dict add up to the size of the collection,
  no key is in both, and every key is in one of them.
\<close>

theorem partition_total_disjoint:
  assumes "list_all (\<lambda>kv. page_record (snd kv)) pages" and "distinct (map fst pages)"
  shows "\<exists>visible_pages hidden_pages.
           partition_pages pages [] [] = Inr (visible_pages, hidden_pages)
         \<and> length visible_pages + length hidden_pages = length pages
         \<and> fst ` set visible_pages \<inter> fst ` set hidden_pages = {}
         \<and> fst ` set visible_pages \<union> fst ` set hidden_pages = fst ` set pages"
proof -
  let ?v = "filter (\<lambda>kv. should_hide_page (fst kv) (snd kv) = Inr False) pages"
  let ?h = "filter (\<lambda>kv. should_hide_page (fst kv) (snd kv) = Inr True) pages"
  have eq: "partition_pages pages [] [] = Inr (?v, ?h)"
    using partition_pages_acc[OF assms, of "[]" "[]"] by simp
  have each: "\<And>kv. kv \<in> set pages \<Longrightarrow>
      (should_hide_page (fst kv) (snd kv) = Inr False) \<noteq> (should_hide_page (fst kv) (snd kv) = Inr True)"
  proof -
    fix kv assume "kv \<in> set pages"
    then have "page_record (snd kv)" using assms(1) by (simp add: list_all_iff)
    then obtain b where "should_hide_page (fst kv) (snd kv) = Inr b"
      using should_hide_page_total by blast
    then show "(should_hide_page (fst kv) (snd kv) = Inr False) \<noteq> (should_hide_page (fst kv) (snd kv) = Inr True)"
      by (cases b) auto
  qed
  have len: "length ?v + length ?h = length pages"
    using each
  proof (induction pages)
    case Nil then show ?case by simp
  next
    case (Cons a pages)
    then show ?case by (cases "should_hide_page (fst a) (snd a) = Inr False") auto
  qed
  have inj: "\<And>a b. a \<in> set pages \<Longrightarrow> b \<in> set pages \<Longrightarrow> fst a = fst b \<Longrightarrow> a = b"
    using assms(2) by (simp add: distinct_map inj_on_def)
  have disj: "fst ` set ?v \<inter> fst ` set ?h = {}"
  proof -
    have "False" if "k \<in> fst ` set ?v" and "k \<in> fst ` set ?h" for k
    proof -
      from that(1) obtain a where a: "a \<in> set pages" "should_hide_page (fst a) (snd a) = Inr False"
        "fst a = k" by auto
      from that(2) obtain b where b: "b \<in> set pages" "should_hide_page (fst b) (snd b) = Inr True"
        "fst b = k" by auto
      from inj[OF a(1) b(1)] a(3) b(3) have "a = b" by simp
      with a(2) b(2) show False by simp
    qed
    then show ?thesis by blast
  qed
  have un: "fst ` set ?v \<union> fst ` set ?h = fst ` set pages"
    using each by auto
  show ?thesis using eq len disj un by blast
qed

theorem partition_total_disjoint_witness:
  "list_all (\<lambda>kv. page_record (snd kv))
     [(''page_1'', JObj [(''label'', JStr ''Home'')]),
      (''page_2'', JObj [(''label'', JStr ''Old stuff'')]),
      (''page_3'', JObj [(''showInNav'', JBool False)])]
   \<and> distinct (map fst
     [(''page_1'', JObj [(''label'', JStr ''Home'')]),
      (''page_2'', JObj [(''label'', JStr ''Old stuff'')]),
      (''page_3'', JObj [(''showInNav'', JBool False)])])
   \<and> (\<exists>visible_pages hidden_pages.
         partition_pages
           [(''page_1'', JObj [(''label'', JStr ''Home'')]),
            (''page_2'', JObj [(''label'', JStr ''Old stuff'')]),
            (''page_3'', JObj [(''showInNav'', JBool False)])] [] []
           = Inr (visible_pages, hidden_pages)
       \<and> length visible_pages + length hidden_pages = 3
       \<and> fst ` set visible_pages \<inter> fst ` set hidden_pages = {}
       \<and> fst ` set visible_pages \<union> fst ` set hidden_pages
           = {''page_1'', ''page_2'', ''page_3''})"
proof -
  let ?pages = "[(''page_1'', JObj [(''label'', JStr ''Home'')]),
      (''page_2'', JObj [(''label'', JStr ''Old stuff'')]),
      (''page_3'', JObj [(''showInNav'', JBool False)])]"
  have a: "list_all (\<lambda>kv. page_record (snd kv)) ?pages" by simp
  have b: "distinct (map fst ?pages)" by simp
  have c: "length ?pages = 3" "fst ` set ?pages = {''page_1'', ''page_2'', ''page_3''}"
    by simp_all
  show ?thesis using partition_total_disjoint[OF a b] a b unfolding c by blast
qed

text \<open>
  C6: a page whose label contains an under-construction keyword and that no earlier
  rule catches is hidden by rule 4 of \<^verbatim>\<open>should_hide_page\<close>, yet \<^verbatim>\<open>get_hide_reason\<close>
  has no case for rule 4 and reports \<^verbatim>\<open>Unknown reason\<close> for it.
\<close>

theorem under_construction_reason_unknown:
  "should_hide_page ''page_7'' (JObj [(''label'', JStr ''Shelter Map (WIP)'')]) = Inr True
   \<and> get_hide_reason ''page_7'' (JObj [(''label'', JStr ''Shelter Map (WIP)'')]) = Inr ''Unknown reason''"
  by code_simp


section \<open>Properties of the reconciliation\<close>

subsection \<open>The split and the page key\<close>

lemma split_from_nonempty: "split_from sep cur s \<noteq> []"
  by (induction sep cur s rule: split_from.induct) auto

lemma last_item_split: "last_item (split h sep) = Inr (last (split h sep))"
  using split_from_nonempty[of sep "[]" h] by (cases "split h sep") (auto simp: split_def)

lemma split_from_no_sep:
  "\<not> sublist sep s \<Longrightarrow> split_from sep cur s = [rev cur @ s]"
proof (induction sep cur s rule: split_from.induct)
  case (1 sep cur)
  then show ?case by simp
next
  case (2 sep cur c cs)
  then show ?case by (auto simp: sublist_Cons_right)
qed

lemma split_from_last:
  "sep \<noteq> [] \<Longrightarrow> sublist sep s \<Longrightarrow>
     \<exists>pre. s = pre @ sep @ last (split_from sep cur s)
          \<and> \<not> sublist sep (last (split_from sep cur s))"
proof (induction sep cur s rule: split_from.induct)
  case (1 sep cur)
  then show ?case by simp
next
  case (2 sep cur c cs)
  show ?case
  proof (cases "prefix sep (c # cs)")
    case True
    let ?rest = "drop (length sep) (c # cs)"
    have s: "c # cs = sep @ ?rest"
      using True by (metis append_take_drop_id prefix_def append_eq_conv_conj)
    have l: "last (split_from sep cur (c # cs)) = last (split_from sep [] ?rest)"
      using True 2(3) by (simp add: split_from_nonempty)
    show ?thesis
    proof (cases "sublist sep ?rest")
      case yes: True
      from "2.IH"(1)[OF _ 2(3) yes] True 2(3)
      obtain pre where "?rest = pre @ sep @ last (split_from sep [] ?rest)"
        "\<not> sublist sep (last (split_from sep [] ?rest))" by auto
      then show ?thesis using s l by (metis append.assoc)
    next
      case no: False
      then have "last (split_from sep [] ?rest) = ?rest" by (simp add: split_from_no_sep)
      then show ?thesis using s l no by (metis append_Nil)
    qed
  next
    case False
    then have sub: "sublist sep cs" using 2(4) by (simp add: sublist_Cons_right)
    have l: "last (split_from sep cur (c # cs)) = last (split_from sep (c # cur) cs)"
      using False by simp
    from "2.IH"(2)[OF _ 2(3) sub] False
    obtain pre where "cs = pre @ sep @ last (split_from sep (c # cur) cs)"
        "\<not> sublist sep (last (split_from sep (c # cur) cs))" by auto
    then show ?thesis using l by (metis append_Cons)
  qed
qed

lemma page_key_after_marker:
  "sublist ''/page/'' h \<Longrightarrow>
     \<exists>pre. h = pre @ ''/page/'' @ page_key h \<and> \<not> sublist ''/page/'' (page_key h)"
  unfolding page_key_def split_def by (rule split_from_last) simp_all

lemma after_last_None: "sep \<noteq> [] \<Longrightarrow> (after_last sep s = None) = (\<not> sublist sep s)"
  by (induction s) (auto simp: sublist_Cons_right split: option.splits)

lemma after_last_skip_marker:
  "\<not> prefix ''page/'' rest \<Longrightarrow>
     after_last ''/page/'' (''page/'' @ rest) = after_last ''/page/'' rest"
  by (simp split: option.splits)

lemma sublist_append_left: "sublist xs s \<Longrightarrow> sublist xs (p @ s)"
proof -
  assume "sublist xs s"
  then obtain ps ss where "s = ps @ xs @ ss" by (auto simp: sublist_def)
  then have "p @ s = (p @ ps) @ xs @ ss" by simp
  then show ?thesis unfolding sublist_def by blast
qed

lemma split_from_after_last:
  "sep = ''/page/'' \<Longrightarrow> \<not> sublist ''/page/page/'' s \<Longrightarrow> sublist sep s \<Longrightarrow>
     after_last sep s = Some (last (split_from sep cur s))"
proof (induction sep cur s rule: split_from.induct)
  case (1 sep cur)
  then show ?case by simp
next
  case (2 sep cur c cs)
  note sep = \<open>sep = ''/page/''\<close>
  have ne: "sep \<noteq> []" using sep by simp
  show ?case
  proof (cases "prefix sep (c # cs)")
    case True
    then obtain rest where s: "c # cs = sep @ rest" by (auto simp: prefix_def)
    have d: "drop (length sep) (c # cs) = rest" unfolding s by simp
    have cs: "cs = ''page/'' @ rest" using s unfolding sep by simp
    have "split_from sep cur (c # cs) = rev cur # split_from sep [] rest"
      using True ne d by simp
    then have l: "last (split_from sep cur (c # cs)) = last (split_from sep [] rest)"
      by (simp add: split_from_nonempty)
    have nover: "\<not> sublist ''/page/page/'' rest"
    proof
      assume "sublist ''/page/page/'' rest"
      then have "sublist ''/page/page/'' (sep @ rest)" by (rule sublist_append_left)
      with 2(4) s show False by simp
    qed
    have np: "\<not> prefix ''page/'' rest"
    proof
      assume "prefix ''page/'' rest"
      then obtain t where "rest = ''page/'' @ t" by (auto simp: prefix_def)
      then have "sep @ rest = [] @ ''/page/page/'' @ t" unfolding sep by simp
      then have "sublist ''/page/page/'' (sep @ rest)" unfolding sublist_def by blast
      with 2(4) s show False by simp
    qed
    have al: "after_last sep cs = after_last sep rest"
      unfolding cs sep by (rule after_last_skip_marker[OF np])
    have top: "after_last sep (c # cs)
        = (case after_last sep cs of Some k \<Rightarrow> Some k | None \<Rightarrow> Some rest)"
      using True d by (simp split: option.splits)
    show ?thesis
    proof (cases "sublist sep rest")
      case yes: True
      have "after_last sep rest = Some (last (split_from sep [] rest))"
        using "2.IH"(1)[unfolded d, OF _ sep nover yes] True ne by simp
      then show ?thesis using al l top by simp
    next
      case no: False
      then have "after_last sep rest = None" using ne by (simp add: after_last_None)
      moreover have "last (split_from sep [] rest) = rest"
        using no by (simp add: split_from_no_sep)
      ultimately show ?thesis using al l top by simp
    qed
  next
    case False
    then have sub: "sublist sep cs" using 2(5) by (simp add: sublist_Cons_right)
    have nover: "\<not> sublist ''/page/page/'' cs"
    proof
      assume "sublist ''/page/page/'' cs"
      then have "sublist ''/page/page/'' ([c] @ cs)" by (rule sublist_append_left)
      with 2(4) show False by simp
    qed
    have "split_from sep cur (c # cs) = split_from sep (c # cur) cs"
      using False by simp
    then have l: "last (split_from sep cur (c # cs)) = last (split_from sep (c # cur) cs)"
      by simp
    have top: "after_last sep (c # cs) = after_last sep cs"
      using False by (simp split: option.splits)
    have "after_last sep cs = Some (last (split_from sep (c # cur) cs))"
      using "2.IH"(2)[OF _ sep nover sub] False by simp
    then show ?thesis using l top by simp
  qed
qed

lemma page_key_after_last:
  "sublist ''/page/'' h \<Longrightarrow> \<not> sublist ''/page/page/'' h \<Longrightarrow>
     after_last ''/page/'' h = Some (page_key h)"
  unfolding page_key_def split_def by (rule split_from_after_last) simp_all

subsection \<open>The loops on a typed menu tree\<close>

lemma getitem_menu_item [simp]:
  "getitem (menu_item_dict l) ''href'' = Inr (JStr (href l))"
  "getitem (menu_item_dict l) ''label'' = Inr (JStr (label l))"
  by (simp_all add: menu_item_dict_def)

lemma getitem_category [simp]:
  "getitem (category_dict c) ''links'' = Inr (JArr (map menu_item_dict (links c)))"
  "getitem (category_dict c) ''category'' = Inr (JStr (category c))"
  by (simp_all add: category_dict_def)

lemma copy_with_links_category [simp]:
  "copy_with_links (category_dict c) (map menu_item_dict ls)
     = Inr (category_dict (c\<lparr>links := ls\<rparr>))"
  by (simp add: category_dict_def)

lemma clean_links_typed:
  "clean_links visible (category_dict c) (map menu_item_dict ls) cleaned removed =
     Inr (cleaned @ map menu_item_dict (filter (keep_rule visible) ls),
          removed @ map (\<lambda>l. (JStr (category c), JStr (label l), page_key (href l)))
                      (filter (\<lambda>l. \<not> keep_rule visible l) ls))"
  by (induction ls arbitrary: cleaned removed)
     (simp_all add: keep_rule_def page_key_def last_item_split)

lemma clean_menu_typed:
  "clean_menu visible (map category_dict tree) cleaned_menu removed =
     Inr (cleaned_menu @ map category_dict (reconcile_spec visible tree),
          removed @ removed_spec visible tree)"
proof (induction tree arbitrary: cleaned_menu removed)
  case Nil
  then show ?case by (simp add: reconcile_spec_def removed_spec_def)
next
  case (Cons c tree)
  have step: "clean_links visible (category_dict c) (map menu_item_dict (links c)) [] removed
      = Inr (map menu_item_dict (filter (keep_rule visible) (links c)),
             removed @ removed_of visible c)"
    by (simp add: clean_links_typed removed_of_def)
  show ?case
    by (simp add: step Cons.IH reconcile_spec_def removed_spec_def)
qed

subsection \<open>The loops on any menu\<close>

lemma copy_with_links_has_links:
  "copy_with_links cat cl = Inr c \<Longrightarrow> cl \<noteq> [] \<Longrightarrow> has_links c"
  by (cases cat) (auto simp: has_links_def update_conv')

lemma clean_menu_step:
  assumes "clean_menu visible (cat # menu) cleaned_menu removed = Inr (out, rm)"
  shows "\<exists>cm' removed'. clean_menu visible menu cm' removed' = Inr (out, rm)
           \<and> (cm' = cleaned_menu \<or> (\<exists>c. cm' = cleaned_menu @ [c] \<and> has_links c))"
proof (cases "getitem cat ''links''")
  case (Inl e)
  with assms show ?thesis by simp
next
  case (Inr ls)
  note ls = this
  show ?thesis
  proof (cases "py_iter ls")
    case (Inl e)
    with assms ls show ?thesis by simp
  next
    case (Inr link_list)
    note it = this
    show ?thesis
    proof (cases "clean_links visible cat link_list [] removed")
      case (Inl e)
      with assms ls it show ?thesis by simp
    next
      case (Inr res)
      obtain cl removed' where res: "res = (cl, removed')" by (cases res)
      show ?thesis
      proof (cases "cl = []")
        case True
        with assms ls it Inr res show ?thesis by auto
      next
        case False
        show ?thesis
        proof (cases "copy_with_links cat cl")
          case (Inl e)
          with assms ls it Inr res False show ?thesis by simp
        next
          case (Inr c)
          note c = this
          have "has_links c" using copy_with_links_has_links[OF c False] .
          moreover have "clean_menu visible menu (cleaned_menu @ [c]) removed' = Inr (out, rm)"
            using assms ls it \<open>clean_links visible cat link_list [] removed = Inr res\<close> res False c
            by simp
          ultimately show ?thesis by blast
        qed
      qed
    qed
  qed
qed

lemma clean_menu_has_links:
  "clean_menu visible menu cleaned_menu removed = Inr (out, rm) \<Longrightarrow>
     list_all has_links cleaned_menu \<Longrightarrow> list_all has_links out"
proof (induction menu arbitrary: cleaned_menu removed)
  case Nil
  then show ?case by simp
next
  case (Cons cat menu)
  from clean_menu_step[OF Cons.prems(1)] obtain cm' removed' where
    r: "clean_menu visible menu cm' removed' = Inr (out, rm)"
    and c: "cm' = cleaned_menu \<or> (\<exists>c. cm' = cleaned_menu @ [c] \<and> has_links c)" by blast
  from c Cons.prems(2) have "list_all has_links cm'" by auto
  from Cons.IH[OF r this] show ?case .
qed



subsection \<open>The specification's reconciliation\<close>

lemma reconcile_spec_Nil: "reconcile_spec visible [] = []"
  by (simp add: reconcile_spec_def)

lemma reconcile_spec_Cons:
  "reconcile_spec visible (c # tree) =
     (if filter (keep_rule visible) (links c) = [] then reconcile_spec visible tree
      else c\<lparr>links := filter (keep_rule visible) (links c)\<rparr> # reconcile_spec visible tree)"
  by (simp add: reconcile_spec_def)

lemma has_links_category_dict: "has_links (category_dict c) = (links c \<noteq> [])"
  by (simp add: has_links_def)

lemma reconcile_spec_nonempty:
  "list_all (\<lambda>c. links c \<noteq> []) (reconcile_spec visible tree)"
  by (induction tree) (simp_all add: reconcile_spec_Nil reconcile_spec_Cons)

lemma reconcile_spec_has_links:
  "list_all has_links (map category_dict (reconcile_spec visible tree))"
  using reconcile_spec_nonempty[of visible tree]
  by (simp add: list_all_iff has_links_category_dict)

lemma reconcile_spec_length:
  "length (reconcile_spec visible tree)
     = length (filter (\<lambda>c. list_ex (keep_rule visible) (links c)) tree)"
proof (induction tree)
  case Nil
  show ?case by (simp add: reconcile_spec_Nil)
next
  case (Cons c tree)
  have "(filter (keep_rule visible) (links c) = []) = (\<not> list_ex (keep_rule visible) (links c))"
    by (simp add: filter_empty_conv list_ex_iff)
  then show ?case using Cons by (simp add: reconcile_spec_Cons)
qed

lemma reconcile_spec_clean:
  "list_all (\<lambda>c. links c \<noteq> [] \<and> list_all (keep_rule visible) (links c)) tree \<Longrightarrow>
     reconcile_spec visible tree = tree \<and> removed_spec visible tree = []"
proof (induction tree)
  case Nil
  then show ?case by (simp add: reconcile_spec_Nil removed_spec_def)
next
  case (Cons c tree)
  from Cons.prems have c: "links c \<noteq> []" "list_all (keep_rule visible) (links c)"
    by simp_all
  from c(2) have f: "filter (keep_rule visible) (links c) = links c"
    by (simp add: list_all_iff)
  from c(2) have g: "filter (\<lambda>l. \<not> keep_rule visible l) (links c) = []"
    by (simp add: list_all_iff filter_empty_conv)
  from Cons have ih: "reconcile_spec visible tree = tree" "removed_spec visible tree = []"
    by simp_all
  have r: "removed_spec visible (c # tree) = removed_of visible c @ removed_spec visible tree"
    by (simp add: removed_spec_def)
  show ?case using c(1) f g ih r by (simp add: reconcile_spec_Cons removed_of_def)
qed

lemma reconcile_spec_empty_visible:
  "list_all (\<lambda>c. list_all (\<lambda>l. \<not> sublist ''/page/'' (href l)) (links c))
     (reconcile_spec {} tree)"
proof (induction tree)
  case Nil
  show ?case by (simp add: reconcile_spec_Nil)
next
  case (Cons c tree)
  have "list_all (\<lambda>l. \<not> sublist ''/page/'' (href l)) (filter (keep_rule {}) (links c))"
    by (simp add: list_all_iff keep_rule_def)
  then show ?case using Cons by (simp add: reconcile_spec_Cons)
qed

subsection \<open>The method around the loops\<close>

lemma validate_menu_visibility_cleaned:
  "eid \<noteq> [] \<Longrightarrow> get_visible_pages env eid = (out, Inr visible_pages) \<Longrightarrow>
   clean_menu (set (map fst visible_pages)) menu_data [] [] = Inr (cleaned_menu, removed) \<Longrightarrow>
   validate_menu_visibility env (Some eid) menu_data =
     (if removed \<noteq> []
      then (out @ RemovedCount (length removed) # map removed_line removed, cleaned_menu)
      else (out @ [AllVisible], cleaned_menu))"
  by (simp add: validate_menu_visibility_def)


lemma validate_menu_visibility_fetch_raises:
  "eid \<noteq> [] \<Longrightarrow> get_visible_pages env eid = (out, Inl e) \<Longrightarrow>
   validate_menu_visibility env (Some eid) menu_data = (out @ [ValidationFailed e], menu_data)"
  by (simp add: validate_menu_visibility_def)

lemma get_visible_pages_fetch_raises:
  "get_arcgis_token env = Inr token \<Longrightarrow>
   response_json (data_endpoint env eid token) = Inl e \<Longrightarrow>
   get_visible_pages env eid = ([], Inl e)"
  by (simp add: get_visible_pages_def)

lemma get_visible_pages_no_pages:
  "get_arcgis_token env = Inr token \<Longrightarrow>
   data_endpoint env eid token = HttpJson (JObj kvs) \<Longrightarrow> ''pages'' \<notin> fst ` set kvs \<Longrightarrow>
   get_visible_pages env eid = ([], Inr [])"
  by (simp add: get_visible_pages_def)

lemma get_visible_pages_lacks_pages:
  "get_arcgis_token env = Inr token \<Longrightarrow>
   response_json (data_endpoint env eid token) = Inr exp_data \<Longrightarrow>
   py_in ''pages'' exp_data = Inr False \<Longrightarrow>
   get_visible_pages env eid = ([], Inr [])"
  by (simp add: get_visible_pages_def)

lemma get_visible_pages_has_pages:
  assumes "get_arcgis_token env = Inr token"
    and "response_json (data_endpoint env eid token) = Inr exp_data"
    and "py_in ''pages'' exp_data = Inr True"
  shows "get_visible_pages env eid \<noteq> ([], Inr [])"
proof (cases "getitem exp_data ''pages''")
  case (Inl e)
  with assms show ?thesis by (simp add: get_visible_pages_def)
next
  case (Inr pages)
  note pages = this
  show ?thesis
  proof (cases "py_items pages")
    case (Inl e)
    with assms pages show ?thesis by (simp add: get_visible_pages_def)
  next
    case (Inr items)
    note items = this
    show ?thesis
    proof (cases "partition_pages items [] []")
      case (Inl e)
      with assms pages items show ?thesis by (simp add: get_visible_pages_def)
    next
      case (Inr res)
      obtain v h where res: "res = (v, h)" by (cases res)
      obtain out r where hl: "hidden_lines h = (out, r)" by (cases "hidden_lines h")
      show ?thesis
        using assms pages items Inr res hl
        by (cases "h = []") (simp_all add: get_visible_pages_def)
    qed
  qed
qed

lemma get_visible_pages_zero_pages_iff:
  assumes "get_arcgis_token env = Inr token"
  shows "(get_visible_pages env eid = ([], Inr []))
       = (\<exists>exp_data. response_json (data_endpoint env eid token) = Inr exp_data
            \<and> py_in ''pages'' exp_data = Inr False)"
proof (cases "response_json (data_endpoint env eid token)")
  case (Inl e)
  with assms show ?thesis by (simp add: get_visible_pages_def)
next
  case (Inr exp_data)
  note body = this
  show ?thesis
  proof (cases "py_in ''pages'' exp_data")
    case (Inl e)
    with assms body show ?thesis by (simp add: get_visible_pages_def)
  next
    case (Inr has_pages)
    show ?thesis
    proof (cases has_pages)
      case True
      with Inr have "py_in ''pages'' exp_data = Inr True" by simp
      from get_visible_pages_has_pages[OF assms body this] this body
      show ?thesis by simp
    next
      case False
      with Inr have "py_in ''pages'' exp_data = Inr False" by simp
      from get_visible_pages_lacks_pages[OF assms body this] this body
      show ?thesis by simp
    qed
  qed
qed

lemma example_visible_pages:
  "get_visible_pages example_env ''exp'' =
     ([VisibilitySummary 2 1, HiddenPagesHeader,
       HiddenPageLine ''page_96'' (JStr ''Old Map'') ''Test/development page''],
      Inr [(''page_84'', JObj [(''label'', JStr ''National'')]),
           (''page_95'', JObj [(''label'', JStr ''Heat Risk'')])])"
  by code_simp

subsection \<open>The claims about the reconciliation\<close>

text \<open>
  C1, as stated, fails where two markers share a slash: in the href \<^verbatim>\<open>a/page/page/x\<close> the
  text after the last \<^verbatim>\<open>/page/\<close> is \<^verbatim>\<open>x\<close>, so with the visible set \<^verbatim>\<open>{x}\<close> the rule as
  worded keeps the link, but the key the method reads is \<^verbatim>\<open>page/x\<close> and the link is
  removed, and its category with it.
\<close>

theorem after_last_marker_counterexample:
  "after_last ''/page/'' (href link_overlap) = Some ''x''
   \<and> keep_rule_after_last {''x''} link_overlap
   \<and> page_key (href link_overlap) = ''page/x''
   \<and> clean_menu {''x''} (map category_dict overlap_tree) [] []
       = Inr ([], [(JStr ''2 Weather'', JStr ''Nested'', ''page/x'')])"
  by code_simp

text \<open>
  C1, amended: for every menu tree and every visible page set the loops of
  \<^verbatim>\<open>validate_menu_visibility\<close> end without an exception and return the tree the
  specification describes: in each surviving category exactly the links that pass the
  keep rule, links and categories in their original relative order. The method returns
  that tree whenever the page collection was fetched. The key of the keep rule is the
  last piece of \<^verbatim>\<open>href.split('/page/')\<close>: it follows a \<^verbatim>\<open>/page/\<close> of the href and contains
  no \<^verbatim>\<open>/page/\<close> itself, and it is the text after the last \<^verbatim>\<open>/page/\<close> whenever the href does
  not contain \<^verbatim>\<open>/page/page/\<close>.
\<close>

theorem reconcile_keeps_exactly:
  "clean_menu visible (map category_dict tree) [] []
     = Inr (map category_dict (reconcile_spec visible tree), removed_spec visible tree)
   \<and> (eid \<noteq> [] \<and> get_visible_pages env eid = (out, Inr visible_pages)
        \<longrightarrow> snd (validate_menu_visibility env (Some eid) (map category_dict tree))
             = map category_dict (reconcile_spec (set (map fst visible_pages)) tree))
   \<and> (sublist ''/page/'' h
        \<longrightarrow> (\<exists>pre. h = pre @ ''/page/'' @ page_key h \<and> \<not> sublist ''/page/'' (page_key h)))
   \<and> (sublist ''/page/'' h \<and> \<not> sublist ''/page/page/'' h
        \<longrightarrow> after_last ''/page/'' h = Some (page_key h))"
proof (intro conjI impI)
  show "clean_menu visible (map category_dict tree) [] []
     = Inr (map category_dict (reconcile_spec visible tree), removed_spec visible tree)"
    using clean_menu_typed[of visible tree "[]" "[]"] by simp
next
  assume a: "eid \<noteq> [] \<and> get_visible_pages env eid = (out, Inr visible_pages)"
  have "clean_menu (set (map fst visible_pages)) (map category_dict tree) [] []
     = Inr (map category_dict (reconcile_spec (set (map fst visible_pages)) tree),
            removed_spec (set (map fst visible_pages)) tree)"
    using clean_menu_typed[of "set (map fst visible_pages)" tree "[]" "[]"] by simp
  from validate_menu_visibility_cleaned[OF _ _ this, of eid env out] a
  show "snd (validate_menu_visibility env (Some eid) (map category_dict tree))
             = map category_dict (reconcile_spec (set (map fst visible_pages)) tree)"
    by simp
next
  assume "sublist ''/page/'' h"
  then show "\<exists>pre. h = pre @ ''/page/'' @ page_key h \<and> \<not> sublist ''/page/'' (page_key h)"
    by (rule page_key_after_marker)
next
  assume "sublist ''/page/'' h \<and> \<not> sublist ''/page/page/'' h"
  then show "after_last ''/page/'' h = Some (page_key h)"
    using page_key_after_last by blast
qed

theorem reconcile_keeps_exactly_witness:
  "clean_menu {''page_84'', ''page_95''} (map category_dict example_tree) [] []
     = Inr (map category_dict clean_tree,
            [(JStr ''1 Situation Summary'', JStr ''Old Map'', ''page_96''),
             (JStr ''8 Regional Risk Tool'', JStr ''Old Map'', ''page_96'')])
   \<and> snd (validate_menu_visibility example_env (Some ''exp'') (map category_dict example_tree))
       = map category_dict clean_tree
   \<and> sublist ''/page/'' (href link_84) \<and> \<not> sublist ''/page/page/'' (href link_84)
   \<and> (\<exists>pre. href link_84 = pre @ ''/page/'' @ ''page_84'')
   \<and> after_last ''/page/'' (href link_84) = Some ''page_84''"
proof -
  let ?vp = "[(''page_84'', JObj [(''label'', JStr ''National'')]),
              (''page_95'', JObj [(''label'', JStr ''Heat Risk'')])]"
  let ?out = "[VisibilitySummary 2 1, HiddenPagesHeader,
       HiddenPageLine ''page_96'' (JStr ''Old Map'') ''Test/development page'']"
  have r: "reconcile_spec {''page_84'', ''page_95''} example_tree = clean_tree"
    by code_simp
  have r': "reconcile_spec (set (map fst ?vp)) example_tree = clean_tree"
    by code_simp
  have rm: "removed_spec {''page_84'', ''page_95''} example_tree
      = [(JStr ''1 Situation Summary'', JStr ''Old Map'', ''page_96''),
         (JStr ''8 Regional Risk Tool'', JStr ''Old Map'', ''page_96'')]"
    by code_simp
  have s: "sublist ''/page/'' (href link_84)" by code_simp
  have n: "\<not> sublist ''/page/page/'' (href link_84)" by code_simp
  have k: "page_key (href link_84) = ''page_84''" by code_simp
  have e: "''exp'' \<noteq> []" by simp
  note t = reconcile_keeps_exactly[of "{''page_84'', ''page_95''}" example_tree "''exp''"
      example_env ?out ?vp "href link_84"]
  from t have c1: "clean_menu {''page_84'', ''page_95''} (map category_dict example_tree) [] []
     = Inr (map category_dict clean_tree,
            [(JStr ''1 Situation Summary'', JStr ''Old Map'', ''page_96''),
             (JStr ''8 Regional Risk Tool'', JStr ''Old Map'', ''page_96'')])"
    unfolding r rm by blast
  from t e example_visible_pages
  have c2: "snd (validate_menu_visibility example_env (Some ''exp'')
                  (map category_dict example_tree)) = map category_dict clean_tree"
    unfolding r' by blast
  from t s have c3: "\<exists>pre. href link_84 = pre @ ''/page/'' @ ''page_84''"
    unfolding k by blast
  from t s n have c4: "after_last ''/page/'' (href link_84) = Some ''page_84''"
    unfolding k by blast
  show ?thesis using c1 c2 s n c3 c4 by blast
qed

text \<open>
  C2: whenever the loops return, for any menu and any visible page set (the empty set
  too), every category of the returned menu has a non-empty \<^verbatim>\<open>links\<close> list. On a menu
  tree they always return, and the returned menu has one category for each category of
  the tree that keeps a link, so a category whose filtered list is empty, also one that
  had no link to begin with, is not in it.
\<close>

theorem no_empty_category:
  "(clean_menu visible menu_data [] [] = Inr (cleaned_menu, removed)
      \<longrightarrow> list_all has_links cleaned_menu)
   \<and> (\<exists>cleaned removed'.
        clean_menu visible (map category_dict tree) [] [] = Inr (cleaned, removed')
        \<and> list_all has_links cleaned
        \<and> length cleaned = length (filter (\<lambda>c. list_ex (keep_rule visible) (links c)) tree))"
proof (intro conjI impI)
  assume "clean_menu visible menu_data [] [] = Inr (cleaned_menu, removed)"
  from clean_menu_has_links[OF this] show "list_all has_links cleaned_menu" by simp
next
  have "clean_menu visible (map category_dict tree) [] []
     = Inr (map category_dict (reconcile_spec visible tree), removed_spec visible tree)"
    using clean_menu_typed[of visible tree "[]" "[]"] by simp
  moreover have "list_all has_links (map category_dict (reconcile_spec visible tree))"
    by (rule reconcile_spec_has_links)
  moreover have "length (map category_dict (reconcile_spec visible tree))
      = length (filter (\<lambda>c. list_ex (keep_rule visible) (links c)) tree)"
    by (simp add: reconcile_spec_length)
  ultimately show "\<exists>cleaned removed'.
        clean_menu visible (map category_dict tree) [] [] = Inr (cleaned, removed')
        \<and> list_all has_links cleaned
        \<and> length cleaned = length (filter (\<lambda>c. list_ex (keep_rule visible) (links c)) tree)"
    by blast
qed

theorem no_empty_category_witness:
  "clean_menu {''page_84''} (map category_dict empty_category_tree) [] []
     = Inr ([category_dict \<lparr>category = ''1 Situation Summary'', color = ''btn-purple'',
                              links = [link_84]\<rparr>], [])
   \<and> list_all has_links
        [category_dict \<lparr>category = ''1 Situation Summary'', color = ''btn-purple'',
                         links = [link_84]\<rparr>]
   \<and> clean_menu {} (map category_dict empty_category_tree) [] []
     = Inr ([], [(JStr ''1 Situation Summary'', JStr ''National'', ''page_84'')])"
proof -
  have a: "clean_menu {''page_84''} (map category_dict empty_category_tree) [] []
     = Inr ([category_dict \<lparr>category = ''1 Situation Summary'', color = ''btn-purple'',
                              links = [link_84]\<rparr>], [])"
    by code_simp
  have b: "clean_menu {} (map category_dict empty_category_tree) [] []
     = Inr ([], [(JStr ''1 Situation Summary'', JStr ''National'', ''page_84'')])"
    by code_simp
  from no_empty_category[of "{''page_84''}" "map category_dict empty_category_tree"
      "[category_dict \<lparr>category = ''1 Situation Summary'', color = ''btn-purple'',
                              links = [link_84]\<rparr>]" "[]"] a b
  show ?thesis by simp
qed

text \<open>
  C3, as stated, fails: a tree with a category that has no link is clean (each of its
  links with a page key refers to a visible page), yet the category is dropped, so the
  returned tree is not the input.
\<close>

theorem clean_tree_counterexample:
  "list_all (\<lambda>c. list_all (keep_rule {''page_84'', ''page_95''}) (links c)) empty_category_tree
   \<and> clean_menu {''page_84'', ''page_95''} (map category_dict empty_category_tree) [] []
       \<noteq> Inr (map category_dict empty_category_tree, [])
   \<and> snd (validate_menu_visibility example_env (Some ''exp'')
            (map category_dict empty_category_tree))
       \<noteq> map category_dict empty_category_tree"
  by code_simp

text \<open>
  C3, amended: for every menu tree in which every category has at least one link and
  every link with a page key refers to a member of the visible set, the loops return
  the tree itself and an empty removed-items list, and the method returns the tree and
  prints that all menu items are visible.
\<close>

theorem clean_tree_unchanged:
  assumes "list_all (\<lambda>c. links c \<noteq> [] \<and> list_all (keep_rule visible) (links c)) tree"
  shows "clean_menu visible (map category_dict tree) [] [] = Inr (map category_dict tree, [])
       \<and> (eid \<noteq> [] \<and> get_visible_pages env eid = (out, Inr visible_pages)
            \<and> set (map fst visible_pages) = visible
          \<longrightarrow> validate_menu_visibility env (Some eid) (map category_dict tree)
               = (out @ [AllVisible], map category_dict tree))"
proof -
  from reconcile_spec_clean[OF assms]
  have r: "reconcile_spec visible tree = tree" "removed_spec visible tree = []" by simp_all
  have c: "clean_menu visible (map category_dict tree) [] [] = Inr (map category_dict tree, [])"
    using clean_menu_typed[of visible tree "[]" "[]"] r by simp
  show ?thesis
  proof (intro conjI impI)
    show "clean_menu visible (map category_dict tree) [] [] = Inr (map category_dict tree, [])"
      by (rule c)
  next
    assume a: "eid \<noteq> [] \<and> get_visible_pages env eid = (out, Inr visible_pages)
            \<and> set (map fst visible_pages) = visible"
    then have "clean_menu (set (map fst visible_pages)) (map category_dict tree) [] []
        = Inr (map category_dict tree, [])" using c by simp
    from validate_menu_visibility_cleaned[OF _ _ this, of eid env out] a
    show "validate_menu_visibility env (Some eid) (map category_dict tree)
               = (out @ [AllVisible], map category_dict tree)" by simp
  qed
qed

theorem clean_tree_unchanged_witness:
  "list_all (\<lambda>c. links c \<noteq> [] \<and> list_all (keep_rule {''page_84'', ''page_95''}) (links c))
     clean_tree
   \<and> clean_menu {''page_84'', ''page_95''} (map category_dict clean_tree) [] []
       = Inr (map category_dict clean_tree, [])
   \<and> validate_menu_visibility example_env (Some ''exp'') (map category_dict clean_tree)
       = ([VisibilitySummary 2 1, HiddenPagesHeader,
           HiddenPageLine ''page_96'' (JStr ''Old Map'') ''Test/development page'',
           AllVisible],
          map category_dict clean_tree)"
proof -
  let ?vp = "[(''page_84'', JObj [(''label'', JStr ''National'')]),
              (''page_95'', JObj [(''label'', JStr ''Heat Risk'')])]"
  let ?out = "[VisibilitySummary 2 1, HiddenPagesHeader,
       HiddenPageLine ''page_96'' (JStr ''Old Map'') ''Test/development page'']"
  have h: "list_all (\<lambda>c. links c \<noteq> [] \<and> list_all (keep_rule {''page_84'', ''page_95''}) (links c))
     clean_tree" by code_simp
  have v: "set (map fst ?vp) = {''page_84'', ''page_95''}" by simp
  have e: "''exp'' \<noteq> []" by simp
  note t = clean_tree_unchanged[OF h, of "''exp''" example_env ?out ?vp]
  from t have c1: "clean_menu {''page_84'', ''page_95''} (map category_dict clean_tree) [] []
       = Inr (map category_dict clean_tree, [])" by blast
  from t e v example_visible_pages
  have c2: "validate_menu_visibility example_env (Some ''exp'') (map category_dict clean_tree)
       = (?out @ [AllVisible], map category_dict clean_tree)" by blast
  show ?thesis using h c1 c2 by simp
qed




text \<open>
  C10, as stated, fails: when the request for the page collection raises, the method
  does not prune; it returns the menu as it was passed in, page links included.
\<close>

theorem fetch_failure_counterexample:
  "validate_menu_visibility env_fetch_fails (Some ''exp'') (map category_dict example_tree)
     = ([ValidationFailed RequestException], map category_dict example_tree)
   \<and> sublist ''/page/'' (href link_96) \<and> link_96 \<in> set (links (hd example_tree))"
  by code_simp

text \<open>
  C10, amended: when the request for the page collection raises or its body cannot be
  decoded, the method does not abort: it prints the failure and returns the menu as it
  was passed in. Only a response that merely lacks the page collection, a decoded body
  in which \<^verbatim>\<open>'pages' in exp_data\<close> is false (a dict without the key, a list or a string
  that does not contain it), is treated as zero pages: \<^verbatim>\<open>get_visible_pages\<close> then, and
  only then, returns the empty dict without looking at a page, the visible set is
  empty and every link with a page key is pruned from the returned tree.
\<close>

theorem fetch_failure_keeps_menu:
  assumes "eid \<noteq> []" and "get_arcgis_token env = Inr token"
  shows "(response_json (data_endpoint env eid token) = Inl e
            \<longrightarrow> validate_menu_visibility env (Some eid) menu_data
                 = ([ValidationFailed e], menu_data))
       \<and> ((get_visible_pages env eid = ([], Inr []))
            = (\<exists>body. response_json (data_endpoint env eid token) = Inr body
                 \<and> py_in ''pages'' body = Inr False))
       \<and> (response_json (data_endpoint env eid token) = Inr exp_data
            \<and> py_in ''pages'' exp_data = Inr False
            \<longrightarrow> snd (validate_menu_visibility env (Some eid) (map category_dict tree))
                   = map category_dict (reconcile_spec {} tree)
               \<and> list_all (\<lambda>c. list_all (\<lambda>l. \<not> sublist ''/page/'' (href l)) (links c))
                    (reconcile_spec {} tree))"
proof (intro conjI impI)
  assume "response_json (data_endpoint env eid token) = Inl e"
  from get_visible_pages_fetch_raises[OF assms(2) this]
  have "get_visible_pages env eid = ([], Inl e)" .
  from validate_menu_visibility_fetch_raises[OF assms(1) this]
  show "validate_menu_visibility env (Some eid) menu_data = ([ValidationFailed e], menu_data)"
    by simp
next
  show "(get_visible_pages env eid = ([], Inr []))
            = (\<exists>body. response_json (data_endpoint env eid token) = Inr body
                 \<and> py_in ''pages'' body = Inr False)"
    by (rule get_visible_pages_zero_pages_iff[OF assms(2)])
next
  assume a: "response_json (data_endpoint env eid token) = Inr exp_data
            \<and> py_in ''pages'' exp_data = Inr False"
  then have g: "get_visible_pages env eid = ([], Inr [])"
    using get_visible_pages_lacks_pages[OF assms(2)] by blast
  have "clean_menu (set (map fst [])) (map category_dict tree) [] []
     = Inr (map category_dict (reconcile_spec {} tree), removed_spec {} tree)"
    using clean_menu_typed[of "{}" tree "[]" "[]"] by simp
  from validate_menu_visibility_cleaned[OF assms(1) g this]
  show "snd (validate_menu_visibility env (Some eid) (map category_dict tree))
                   = map category_dict (reconcile_spec {} tree)" by simp
next
  show "list_all (\<lambda>c. list_all (\<lambda>l. \<not> sublist ''/page/'' (href l)) (links c))
                    (reconcile_spec {} tree)"
    by (rule reconcile_spec_empty_visible)
qed

theorem fetch_failure_keeps_menu_witness:
  "''exp'' \<noteq> [] \<and> get_arcgis_token env_fetch_fails = Inr (JStr ''tok'')
   \<and> response_json (data_endpoint env_fetch_fails ''exp'' (JStr ''tok'')) = Inl RequestException
   \<and> validate_menu_visibility env_fetch_fails (Some ''exp'') (map category_dict example_tree)
       = ([ValidationFailed RequestException], map category_dict example_tree)
   \<and> get_visible_pages env_fetch_fails ''exp'' \<noteq> ([], Inr [])
   \<and> get_arcgis_token env_no_pages = Inr (JStr ''tok'')
   \<and> response_json (data_endpoint env_no_pages ''exp'' (JStr ''tok''))
       = Inr (JObj [(''error'', JStr ''Item does not exist'')])
   \<and> py_in ''pages'' (JObj [(''error'', JStr ''Item does not exist'')]) = Inr False
   \<and> get_visible_pages env_no_pages ''exp'' = ([], Inr [])
   \<and> snd (validate_menu_visibility env_no_pages (Some ''exp'') (map category_dict example_tree))
       = map category_dict
           [\<lparr>category = ''1 Situation Summary'', color = ''btn-purple'',
              links = [link_external]\<rparr>]
   \<and> get_arcgis_token env_list_body = Inr (JStr ''tok'')
   \<and> response_json (data_endpoint env_list_body ''exp'' (JStr ''tok''))
       = Inr (JArr [JStr ''error''])
   \<and> py_in ''pages'' (JArr [JStr ''error'']) = Inr False
   \<and> snd (validate_menu_visibility env_list_body (Some ''exp'') (map category_dict example_tree))
       = map category_dict
           [\<lparr>category = ''1 Situation Summary'', color = ''btn-purple'',
              links = [link_external]\<rparr>]"
proof -
  let ?obj = "JObj [(''error'', JStr ''Item does not exist'')]"
  let ?arr = "JArr [JStr ''error'']"
  let ?pruned = "[\<lparr>category = ''1 Situation Summary'', color = ''btn-purple'',
              links = [link_external]\<rparr>]"
  have e: "''exp'' \<noteq> []" by simp
  have t1: "get_arcgis_token env_fetch_fails = Inr (JStr ''tok'')" by code_simp
  have r1: "response_json (data_endpoint env_fetch_fails ''exp'' (JStr ''tok''))
      = Inl RequestException" by (simp add: env_fetch_fails_def)
  have t2: "get_arcgis_token env_no_pages = Inr (JStr ''tok'')" by code_simp
  have r2: "response_json (data_endpoint env_no_pages ''exp'' (JStr ''tok'')) = Inr ?obj"
    by (simp add: env_no_pages_def)
  have n2: "py_in ''pages'' ?obj = Inr False" by simp
  have t3: "get_arcgis_token env_list_body = Inr (JStr ''tok'')" by code_simp
  have r3: "response_json (data_endpoint env_list_body ''exp'' (JStr ''tok'')) = Inr ?arr"
    by (simp add: env_list_body_def)
  have n3: "py_in ''pages'' ?arr = Inr False" by simp
  have s: "reconcile_spec {} example_tree = ?pruned" by code_simp
  note f1 = fetch_failure_keeps_menu[OF e t1, of RequestException
      "map category_dict example_tree"]
  note f2 = fetch_failure_keeps_menu[OF e t2, of _ _ ?obj example_tree]
  note f3 = fetch_failure_keeps_menu[OF e t3, of _ _ ?arr example_tree]
  from f1 r1 have c1: "validate_menu_visibility env_fetch_fails (Some ''exp'')
       (map category_dict example_tree)
       = ([ValidationFailed RequestException], map category_dict example_tree)" by blast
  from f1 r1 have c1': "get_visible_pages env_fetch_fails ''exp'' \<noteq> ([], Inr [])" by simp
  from f2 r2 n2 have c2: "get_visible_pages env_no_pages ''exp'' = ([], Inr [])" by blast
  from f2 r2 n2 have c2': "snd (validate_menu_visibility env_no_pages (Some ''exp'')
       (map category_dict example_tree)) = map category_dict ?pruned"
    unfolding s by blast
  from f3 r3 n3 have c3: "snd (validate_menu_visibility env_list_body (Some ''exp'')
       (map category_dict example_tree)) = map category_dict ?pruned"
    unfolding s by blast
  show ?thesis using e t1 r1 c1 c1' t2 r2 n2 c2 c2' t3 r3 n3 c3 by blast
qed

section \<open>Properties of the token acquisition\<close>

text \<open>
  C8, as stated, fails: when the token endpoint rejects the exchange with an error body,
  which has no access token, \<^verbatim>\<open>get_arcgis_token\<close> raises nothing and returns \<^verbatim>\<open>None\<close>.
\<close>

theorem token_rejected_counterexample:
  "token_endpoint env_token_rejected (JStr ''id'') (JStr ''secret'')
     = HttpJson (JObj [(''error'',
         JObj [(''code'', JNum 400), (''message'', JStr ''Invalid client_id'')])])
   \<and> get_arcgis_token env_token_rejected = Inr JNull"
  by code_simp

text \<open>
  C8, amended: token acquisition returns the access token of the response when the
  response is a JSON object that has one, and returns \<^verbatim>\<open>None\<close> when the object has none,
  as the body of a rejected exchange; it raises only when the request raises, when the
  body cannot be decoded, when the decoded body is not an object, or when the
  configuration file is missing.
\<close>

theorem get_arcgis_token_result:
  assumes "global_config env = Some config"
    and "client_id = config_get config ''ARCGIS_CLIENT_ID'' JNull"
    and "client_secret = config_get config ''ARCGIS_CLIENT_SECRET'' JNull"
  shows "(token_endpoint env client_id client_secret = HttpJson (JObj kvs)
            \<and> map_of kvs ''access_token'' = Some t
          \<longrightarrow> get_arcgis_token env = Inr t)
       \<and> (token_endpoint env client_id client_secret = HttpJson (JObj kvs)
            \<and> map_of kvs ''access_token'' = None
          \<longrightarrow> get_arcgis_token env = Inr JNull)
       \<and> (token_endpoint env client_id client_secret = HttpRaises
          \<longrightarrow> get_arcgis_token env = Inl RequestException)
       \<and> (token_endpoint env client_id client_secret = HttpNotJson
          \<longrightarrow> get_arcgis_token env = Inl JSONDecodeError)"
  using assms
  by (simp add: get_arcgis_token_def get_arcgis_credentials_def load_global_config_def)

theorem get_arcgis_token_result_witness:
  "global_config example_env
     = Some [(''ARCGIS_CLIENT_ID'', ''id''), (''ARCGIS_CLIENT_SECRET'', ''secret'')]
   \<and> token_endpoint example_env (JStr ''id'') (JStr ''secret'')
       = HttpJson (JObj [(''access_token'', JStr ''tok'')])
   \<and> get_arcgis_token example_env = Inr (JStr ''tok'')
   \<and> global_config env_token_rejected
       = Some [(''ARCGIS_CLIENT_ID'', ''id''), (''ARCGIS_CLIENT_SECRET'', ''secret'')]
   \<and> token_endpoint env_token_rejected (JStr ''id'') (JStr ''secret'')
       = HttpJson (JObj [(''error'',
           JObj [(''code'', JNum 400), (''message'', JStr ''Invalid client_id'')])])
   \<and> get_arcgis_token env_token_rejected = Inr JNull"
proof -
  let ?config = "[(''ARCGIS_CLIENT_ID'', ''id''), (''ARCGIS_CLIENT_SECRET'', ''secret'')]"
  let ?err = "[(''error'', JObj [(''code'', JNum 400), (''message'', JStr ''Invalid client_id'')])]"
  have g1: "global_config example_env = Some ?config" by (simp add: example_env_def)
  have g2: "global_config env_token_rejected = Some ?config"
    by (simp add: env_token_rejected_def example_env_def)
  have i: "JStr ''id'' = config_get ?config ''ARCGIS_CLIENT_ID'' JNull"
    by (simp add: config_get_def)
  have s: "JStr ''secret'' = config_get ?config ''ARCGIS_CLIENT_SECRET'' JNull"
    by (simp add: config_get_def)
  have r1: "token_endpoint example_env (JStr ''id'') (JStr ''secret'')
       = HttpJson (JObj [(''access_token'', JStr ''tok'')])" by (simp add: example_env_def)
  have r2: "token_endpoint env_token_rejected (JStr ''id'') (JStr ''secret'')
       = HttpJson (JObj ?err)" by (simp add: env_token_rejected_def)
  have m1: "map_of [(''access_token'', JStr ''tok'')] ''access_token'' = Some (JStr ''tok'')"
    by simp
  have m2: "map_of ?err ''access_token'' = None" by simp
  from get_arcgis_token_result[OF g1 i s, of "[(''access_token'', JStr ''tok'')]" "JStr ''tok''"]
    r1 m1
  have c1: "get_arcgis_token example_env = Inr (JStr ''tok'')" by blast
  from get_arcgis_token_result[OF g2 i s, of ?err] r2 m2
  have c2: "get_arcgis_token env_token_rejected = Inr JNull" by blast
  show ?thesis using g1 g2 r1 r2 c1 c2 by blast
qed

section \<open>Properties of the deployment\<close>

lemma config_domain:
  "getitem (get_deployment_config env) ''pythonanywhere_domain''
     = Inr (config_get (deployment_config env) ''PYTHONANYWHERE_DOMAIN'' JNull)"
  by (simp add: get_deployment_config_def)

lemma deploy_to_github_total:
  assumes "\<And>cmd. run env cmd \<noteq> None"
  shows "\<exists>b. deploy_to_github env commit_message = Inr b"
proof -
  have rc: "\<And>cmd. \<exists>b out. run_command env cmd = Inr (b, out)"
  proof -
    fix cmd
    from assms[of cmd] obtain r where "run env cmd = Some r" by blast
    then show "\<exists>b out. run_command env cmd = Inr (b, out)"
      by (cases "returncode r = 0") (auto simp: run_command_def)
  qed
  from assms[of "[''git'', ''status'', ''--porcelain'']"]
  obtain r where "run env [''git'', ''status'', ''--porcelain''] = Some r" by blast
  then have st: "check_git_status env = Inr (strip (stdout r))"
    by (simp add: check_git_status_def)
  obtain b1 o1 where a: "run_command env [''git'', ''add'', ''.''] = Inr (b1, o1)"
    using rc by blast
  define message where "message =
     (case commit_message of
        None \<Rightarrow> ''Update ArcGIS Experience Builder menu - '' @ commit_stamp env
      | Some m \<Rightarrow>
          if m = [] then ''Update ArcGIS Experience Builder menu - '' @ commit_stamp env
          else m)"
  obtain b2 o2 where c: "run_command env [''git'', ''commit'', ''-m'', message] = Inr (b2, o2)"
    using rc by blast
  obtain b3 o3 where p: "run_command env [''git'', ''push''] = Inr (b3, o3)"
    using rc by blast
  show ?thesis
    using st a c p unfolding deploy_to_github_def message_def by (auto simp: Let_def)
qed

lemma deploy_string_body:
  "deploy_to_pythonanywhere env_string_body = False
   \<and> deploy_to_github env_string_body None = Inr True
   \<and> full_deployment env_string_body None = Inr False"
  by code_simp

text \<open>
  C9, as stated, fails: with the push rejected and the menu API accepting the menu the
  run returns \<open>False\<close>, and with both targets failing it returns \<open>False\<close> as well, so the
  returned value does not tell "exactly one failed" from "both failed".
\<close>

theorem deployment_result_counterexample:
  "deploy_to_github env_vcs_fails None = Inr False
   \<and> deploy_to_pythonanywhere env_vcs_fails = True
   \<and> full_deployment env_vcs_fails None = Inr False
   \<and> deploy_to_github env_both_fail None = Inr False
   \<and> deploy_to_pythonanywhere env_both_fail = False
   \<and> full_deployment env_both_fail None = Inr False"
  by code_simp

text \<open>
  C9, amended: the full deployment run returns a single boolean, \<open>True\<close> exactly when the
  validation passed and both publish targets succeeded and \<open>False\<close> otherwise, so "both
  failed" and "exactly one failed" return the same value. A VCS-publish failure
  combined with an HTTP-publish success returns \<open>False\<close>; the run raises nothing as long
  as the programs it starts can be started.
\<close>

theorem full_deployment_result:
  "(full_deployment env commit_message = Inr True
      \<longleftrightarrow> validate_menu env \<and> deploy_to_github env commit_message = Inr True
          \<and> deploy_to_pythonanywhere env)
   \<and> (validate_menu env \<and> deploy_to_github env commit_message = Inr False
        \<and> deploy_to_pythonanywhere env
      \<longrightarrow> full_deployment env commit_message = Inr False)
   \<and> ((\<forall>cmd. run env cmd \<noteq> None) \<longrightarrow> (\<exists>b. full_deployment env commit_message = Inr b))"
proof (intro conjI impI)
  show "full_deployment env commit_message = Inr True
      \<longleftrightarrow> validate_menu env \<and> deploy_to_github env commit_message = Inr True
          \<and> deploy_to_pythonanywhere env"
    by (cases "deploy_to_github env commit_message")
       (auto simp: full_deployment_def Let_def config_domain)
next
  assume "validate_menu env \<and> deploy_to_github env commit_message = Inr False
        \<and> deploy_to_pythonanywhere env"
  then show "full_deployment env commit_message = Inr False"
    by (simp add: full_deployment_def Let_def config_domain)
next
  assume "\<forall>cmd. run env cmd \<noteq> None"
  then obtain g where "deploy_to_github env commit_message = Inr g"
    using deploy_to_github_total[of env commit_message] by blast
  then show "\<exists>b. full_deployment env commit_message = Inr b"
    by (cases "validate_menu env"; cases "g \<and> deploy_to_pythonanywhere env")
       (auto simp: full_deployment_def Let_def config_domain)
qed

theorem full_deployment_result_witness:
  "validate_menu env_vcs_fails \<and> deploy_to_github env_vcs_fails None = Inr False
   \<and> deploy_to_pythonanywhere env_vcs_fails
   \<and> full_deployment env_vcs_fails None = Inr False
   \<and> (\<forall>cmd. run env_both_succeed cmd \<noteq> None)
   \<and> validate_menu env_both_succeed \<and> deploy_to_github env_both_succeed None = Inr True
   \<and> deploy_to_pythonanywhere env_both_succeed
   \<and> full_deployment env_both_succeed None = Inr True"
proof -
  have v1: "validate_menu env_vcs_fails" by code_simp
  have g1: "deploy_to_github env_vcs_fails None = Inr False" by code_simp
  have p1: "deploy_to_pythonanywhere env_vcs_fails" by code_simp
  have v2: "validate_menu env_both_succeed" by code_simp
  have g2: "deploy_to_github env_both_succeed None = Inr True" by code_simp
  have p2: "deploy_to_pythonanywhere env_both_succeed" by code_simp
  have r: "\<forall>cmd. run env_both_succeed cmd \<noteq> None"
    by (simp add: env_both_succeed_def git_succeeds_def)
  from full_deployment_result[of env_vcs_fails None] v1 g1 p1
  have c1: "full_deployment env_vcs_fails None = Inr False" by blast
  from full_deployment_result[of env_both_succeed None] v2 g2 p2
  have c2: "full_deployment env_both_succeed None = Inr True" by blast
  show ?thesis using v1 g1 p1 c1 r v2 g2 p2 c2 by blast
qed

end
